theory Spec2Isabelle
  imports
    Main
    "HOL-Library.Word"
    "HOL-Library.Sublist"
    "HOL-Library.Multiset"
    "HOL-Library.Char_ord"
    "HOL-Library.List_Lexorder"
begin

unbundle bit_operations_syntax

text \<open>
  A shallow embedding of the device discovery and initialization code of DirectPV: the
  decoder of kernel hotplug messages, the drive matcher, the fingerprint of a device, the
  handler of initialization requests, and the repair of a drive's finalizers. Each Go
  function is a HOL function of the same name; the definitions come first and the results
  about them follow.
\<close>

section \<open>Event decoder (package uevent, function parse)\<close>

text \<open>
  A Go byte slice is a list of 8-bit characters. Go strings are byte sequences as well,
  so \<^verbatim>\<open>string(field)\<close> is the identity on the model.

  The constants \<^verbatim>\<open>libudev\<close> and \<^verbatim>\<open>libudevMagic\<close> are declared in a file of package
  uevent that is not part of the sources at hand; \<open>parse\<close> takes them as its first two
  arguments. The concrete values used in closed theorems below are the ones of the udev
  netlink header: the 8 bytes \<^verbatim>\<open>libudev\0\<close> and the magic \<^verbatim>\<open>0xfeedcafe\<close>.
\<close>

type_synonym bytes = "char list"

text \<open>
  The four different failures of \<^verbatim>\<open>parse\<close>, in the order the source tests for them:
  \<^verbatim>\<open>libudev signature not found\<close>,
  \<^verbatim>\<open>libudev magic mismatch; expected: %v, got: %v\<close>,
  \<^verbatim>\<open>payload offset %v is not more than 17\<close>,
  \<^verbatim>\<open>payload offset %v beyond message length %v\<close>.
\<close>

datatype parse_error =
    SignatureNotFound
  | MagicMismatch "32 word" "32 word"
  | OffsetNotMoreThan17 nat
  | OffsetBeyondLength nat nat

text \<open>
  A Go function either panics (a run-time error such as an index out of range), or
  returns an error, or returns its value.
\<close>

datatype ('e, 'a) outcome = Panic | Err 'e | Ok 'a

text \<open>
  \<^verbatim>\<open>binary.BigEndian.Uint32(b)\<close> reads \<^verbatim>\<open>b[3]\<close> first and so panics on a slice of fewer
  than four bytes; otherwise it is
  \<^verbatim>\<open>uint32(b[3]) | uint32(b[2])<<8 | uint32(b[1])<<16 | uint32(b[0])<<24\<close>.
  \<open>None\<close> stands for the panic.
\<close>

definition byte32 :: "char \<Rightarrow> 32 word" where
  "byte32 c = of_nat (of_char c)"

definition Uint32 :: "bytes \<Rightarrow> 32 word option" where
  "Uint32 b =
     (if length b < 4 then None
      else Some (byte32 (b ! 3) OR push_bit 8 (byte32 (b ! 2))
                 OR push_bit 16 (byte32 (b ! 1)) OR push_bit 24 (byte32 (b ! 0))))"

text \<open>
  Modelled from the spec: \<^verbatim>\<open>fieldDelimiter\<close>, declared outside the sources at hand; the
  payload is a NUL-delimited sequence of fields.
\<close>

definition fieldDelimiter :: char where
  "fieldDelimiter = CHR 0x00"

text \<open>
  \<^verbatim>\<open>bytes.Split(s, sep)\<close> for a one-byte separator: n separators give n + 1 pieces, and
  the empty input gives one empty piece.
\<close>

fun Split :: "bytes \<Rightarrow> char \<Rightarrow> bytes list" where
  "Split [] d = [[]]"
| "Split (c # cs) d =
     (if c = d then [] # Split cs d
      else (case Split cs d of
              [] \<Rightarrow> [[c]]
            | f # fs \<Rightarrow> (c # f) # fs))"

text \<open>
  \<^verbatim>\<open>strings.SplitN(s, "=", 2)\<close>: the text before the first \<^verbatim>\<open>=\<close> and the text after
  it, or the whole string alone when there is no \<^verbatim>\<open>=\<close>.
\<close>

fun SplitN2 :: "string \<Rightarrow> string list" where
  "SplitN2 [] = [[]]"
| "SplitN2 (c # cs) =
     (if c = CHR ''='' then [[], cs]
      else (case SplitN2 cs of
              [k] \<Rightarrow> [c # k]
            | [k, v] \<Rightarrow> [c # k, v]
            | _ \<Rightarrow> [c # cs]))"

text \<open>The body of the loop over the fields: one field updates the event map.\<close>

definition addField :: "(string \<rightharpoonup> string) \<Rightarrow> bytes \<Rightarrow> (string \<rightharpoonup> string)" where
  "addField event field =
     (if length field = 0 then event
      else (case SplitN2 field of
              [k] \<Rightarrow> event(k \<mapsto> [])
            | [k, v] \<Rightarrow> event(k \<mapsto> v)
            | _ \<Rightarrow> event))"

definition parse ::
  "bytes \<Rightarrow> 32 word \<Rightarrow> bytes \<Rightarrow> (parse_error, string \<rightharpoonup> string) outcome" where
  "parse libudev libudevMagic msg =
     (if \<not> prefix libudev msg then Err SignatureNotFound
      else if length msg < 8 then Panic
      else (case Uint32 (drop 8 msg) of
              None \<Rightarrow> Panic
            | Some magic \<Rightarrow>
                if magic \<noteq> libudevMagic then Err (MagicMismatch libudevMagic magic)
                else if length msg \<le> 16 then Panic
                else (let offset = of_char (msg ! 16) :: nat in
                      if offset < 17 then Err (OffsetNotMoreThan17 offset)
                      else if offset > length msg then Err (OffsetBeyondLength offset (length msg))
                      else Ok (foldl addField Map.empty (Split (drop offset msg) fieldDelimiter)))))"

text \<open>The udev netlink header constants used for closed instances.\<close>

definition udevSignature :: bytes where
  "udevSignature = ''libudev'' @ [CHR 0x00]"

definition udevMagic :: "32 word" where
  "udevMagic = 0xfeedcafe"

text \<open>
  Two 17-byte buffers with the signature: one with a zero magic, one with the right
  magic and the payload offset 0.
\<close>

definition badMagicMsg :: bytes where
  "badMagicMsg = udevSignature @ replicate 9 (CHR 0x00)"

definition badOffsetMsg :: bytes where
  "badOffsetMsg =
     udevSignature @ [CHR 0xfe, CHR 0xed, CHR 0xca, CHR 0xfe] @ replicate 5 (CHR 0x00)"

section \<open>Drive matcher (package uevent, functions match, getMatchingDrives, runMatcher)\<close>

text \<open>
  The drive and device structures (\<^verbatim>\<open>directcsi.DirectCSIDrive\<close>, \<^verbatim>\<open>sys.Device\<close>) are
  declared in other packages; the matcher does not look inside them, so they are type
  parameters here. A criterion returns the pair (match, cont).
\<close>

type_synonym ('drive, 'device) matchFn = "'drive \<Rightarrow> 'device \<Rightarrow> bool \<times> bool"

datatype matchResult = noMatch | tooManyMatches | changed | noChange

text \<open>
  Each criterion of the source is a function with named results and a bare
  \<^verbatim>\<open>return\<close>: it returns the zero values \<^verbatim>\<open>(false, false)\<close>.
\<close>

definition fsUUIDMatcher :: "('drive, 'device) matchFn" where
  "fsUUIDMatcher drive device = (False, False)"

definition ueventFSUUIDMatcher :: "('drive, 'device) matchFn" where
  "ueventFSUUIDMatcher drive device = (False, False)"

definition serialNumberMatcher :: "('drive, 'device) matchFn" where
  "serialNumberMatcher drive device = (False, False)"

definition ueventSerialNumberMatcher :: "('drive, 'device) matchFn" where
  "ueventSerialNumberMatcher drive device = (False, False)"

definition wwidMatcher :: "('drive, 'device) matchFn" where
  "wwidMatcher drive device = (False, False)"

definition modelNumberMatcher :: "('drive, 'device) matchFn" where
  "modelNumberMatcher drive device = (False, False)"

definition vendorMatcher :: "('drive, 'device) matchFn" where
  "vendorMatcher drive device = (False, False)"

definition partitionNumberMatcher :: "('drive, 'device) matchFn" where
  "partitionNumberMatcher drive device = (False, False)"

definition dmUUIDMatcher :: "('drive, 'device) matchFn" where
  "dmUUIDMatcher drive device = (False, False)"

definition mdUUIDMatcher :: "('drive, 'device) matchFn" where
  "mdUUIDMatcher drive device = (False, False)"

definition partitionUUIDMatcher :: "('drive, 'device) matchFn" where
  "partitionUUIDMatcher drive device = (False, False)"

definition partitionTableUUIDMatcher :: "('drive, 'device) matchFn" where
  "partitionTableUUIDMatcher drive device = (False, False)"

definition logicalBlocksizeMatcher :: "('drive, 'device) matchFn" where
  "logicalBlocksizeMatcher drive device = (False, False)"

definition physicalBlocksizeMatcher :: "('drive, 'device) matchFn" where
  "physicalBlocksizeMatcher drive device = (False, False)"

definition filesystemMatcher :: "('drive, 'device) matchFn" where
  "filesystemMatcher drive device = (False, False)"

definition totalCapacityMatcher :: "('drive, 'device) matchFn" where
  "totalCapacityMatcher drive device = (False, False)"

definition allocatedCapacityMatcher :: "('drive, 'device) matchFn" where
  "allocatedCapacityMatcher drive device = (False, False)"

definition mountMatcher :: "('drive, 'device) matchFn" where
  "mountMatcher drive device = (False, False)"

definition matchers :: "('drive, 'device) matchFn list" where
  "matchers =
     [fsUUIDMatcher, ueventFSUUIDMatcher, serialNumberMatcher, ueventSerialNumberMatcher,
      wwidMatcher, modelNumberMatcher, vendorMatcher, partitionNumberMatcher, dmUUIDMatcher,
      mdUUIDMatcher, partitionUUIDMatcher, partitionTableUUIDMatcher,
      logicalBlocksizeMatcher, physicalBlocksizeMatcher, filesystemMatcher,
      totalCapacityMatcher, allocatedCapacityMatcher, mountMatcher]"

text \<open>
  The loop of \<^verbatim>\<open>match\<close> over the drives; the last argument is the local
  \<^verbatim>\<open>matchedDrives\<close>, which starts as the nil slice.
\<close>

fun matchLoop ::
  "'drive list \<Rightarrow> 'device \<Rightarrow> ('drive, 'device) matchFn \<Rightarrow> 'drive list \<Rightarrow> 'drive list \<times> bool" where
  "matchLoop [] device matchFn matchedDrives = (matchedDrives, True)"
| "matchLoop (drive # drives) device matchFn matchedDrives =
     (case matchFn drive device of
        (isMatch, cont) \<Rightarrow>
          if isMatch then
            (if \<not> cont then ([drive], False)
             else matchLoop drives device matchFn (matchedDrives @ [drive]))
          else matchLoop drives device matchFn matchedDrives)"

definition match ::
  "'drive list \<Rightarrow> 'device \<Rightarrow> ('drive, 'device) matchFn \<Rightarrow> 'drive list \<times> bool" where
  "match drives device matchFn = matchLoop drives device matchFn []"

text \<open>
  The loop of \<^verbatim>\<open>getMatchingDrives\<close> over a chain of criteria: each round replaces
  \<^verbatim>\<open>matchedDrives\<close> by what \<^verbatim>\<open>match\<close> returns and stops when \<^verbatim>\<open>cont\<close> is false.
\<close>

fun matchChain ::
  "('drive, 'device) matchFn list \<Rightarrow> 'drive list \<Rightarrow> 'device \<Rightarrow> 'drive list" where
  "matchChain [] matchedDrives device = matchedDrives"
| "matchChain (matchFn # rest) matchedDrives device =
     (case match matchedDrives device matchFn of
        (matchedDrives', cont) \<Rightarrow>
          if \<not> cont then matchedDrives' else matchChain rest matchedDrives' device)"

definition getMatchingDrives :: "'drive list \<Rightarrow> 'device \<Rightarrow> 'drive list" where
  "getMatchingDrives drives device = matchChain matchers drives device"

text \<open>
  \<^verbatim>\<open>validateNonHostInfo\<close> and \<^verbatim>\<open>validateHostInfo\<close> are declared outside the sources at
  hand and are arguments of \<open>runMatcher\<close>. A nil drive pointer is \<open>None\<close>.
\<close>

definition runMatcher ::
  "('drive \<Rightarrow> 'device \<Rightarrow> bool) \<Rightarrow> ('drive \<Rightarrow> 'device \<Rightarrow> bool) \<Rightarrow> 'drive list \<Rightarrow> 'device
     \<Rightarrow> 'drive option \<times> matchResult" where
  "runMatcher validateNonHostInfo validateHostInfo drives device =
     (case getMatchingDrives drives device of
        [d] \<Rightarrow>
          if validateNonHostInfo d device \<and> validateHostInfo d device then (Some d, noChange)
          else (Some d, changed)
      | [] \<Rightarrow> (None, noMatch)
      | _ \<Rightarrow> (None, tooManyMatches))"

text \<open>
  Two criteria for closed instances: one that matches no drive and one that matches every
  drive, both asking to go on.
\<close>

definition matchesNone :: "('drive, 'device) matchFn" where
  "matchesNone drive device = (False, True)"

definition matchesAll :: "('drive, 'device) matchFn" where
  "matchesAll drive device = (True, True)"

section \<open>Device identity (package device, methods ID and Make)\<close>

text \<open>
  A Go slice is a header that points to a backing array; copying a \<^verbatim>\<open>Device\<close> (as the
  value receiver of \<^verbatim>\<open>ID\<close> does) copies the headers, and both copies then designate the
  same arrays. The model keeps the arrays in a store and the fields \<open>Holders\<close> and
  \<open>MountPoints\<close> hold the address of their array. A slice always spans its whole array
  here.
\<close>

type_synonym slice = nat

type_synonym store = "slice \<Rightarrow> string list"

text \<open>
  \<^verbatim>\<open>udevData\<close> is a Go map; it is kept as the list of its key/value pairs, since \<open>ID\<close>
  enumerates it. A lookup of a missing key gives the empty string.
\<close>

record Device =
  Name :: string
  MajorMinor :: string
  Size :: "64 word"
  Hidden :: bool
  Removable :: bool
  ReadOnly :: bool
  Partitioned :: bool
  Holders :: slice
  MountPoints :: slice
  SwapOn :: bool
  CDROM :: bool
  DMName :: string
  udevData :: "(string \<times> string) list"

definition lookup :: "(string \<times> string) list \<Rightarrow> string \<Rightarrow> string" where
  "lookup m k = (case map_of m k of None \<Rightarrow> [] | Some v \<Rightarrow> v)"

text \<open>\<^verbatim>\<open>fmt.Sprintf("%v", x)\<close> for an unsigned integer and for a boolean.\<close>

definition digit :: "nat \<Rightarrow> char" where
  "digit d = ''0123456789'' ! d"

fun decimal :: "nat \<Rightarrow> string" where
  "decimal n = (if n < 10 then [digit n] else decimal (n div 10) @ [digit (n mod 10)])"

declare decimal.simps [simp del]

definition fmtBool :: "bool \<Rightarrow> string" where
  "fmtBool b = (if b then ''true'' else ''false'')"

text \<open>\<^verbatim>\<open>strings.Join(elems, sep)\<close>.\<close>

fun Join :: "string list \<Rightarrow> string \<Rightarrow> string" where
  "Join [] sep = []"
| "Join [x] sep = x"
| "Join (x # y # ys) sep = x @ sep @ Join (y # ys) sep"

text \<open>
  Modelled from the spec: \<^verbatim>\<open>toSlice\<close>, a helper of package device that is not part of
  the sources at hand. The spec has the pairs of a map serialized "in sorted key order";
  each pair is rendered as key, delimiter, value.
\<close>

definition toSlice :: "(string \<times> string) list \<Rightarrow> string \<Rightarrow> string list" where
  "toSlice m delim = map (\<lambda>(k, v). k @ delim @ v) (sort_key fst m)"

text \<open>
  \<^verbatim>\<open>sort.Strings(s)\<close> sorts the backing array of \<open>s\<close> in place, in the byte-wise
  lexicographic order of Go strings.
\<close>

definition sortStrings :: "store \<Rightarrow> slice \<Rightarrow> store" where
  "sortStrings st a = st(a := sort (st a))"

definition deviceMap :: "store \<Rightarrow> Device \<Rightarrow> string \<Rightarrow> (string \<times> string) list" where
  "deviceMap st d nodeID =
     [(''node'', nodeID),
      (''name'', Name d),
      (''majorminor'', MajorMinor d),
      (''size'', decimal (unat (Size d))),
      (''hidden'', fmtBool (Hidden d)),
      (''removable'', fmtBool (Removable d)),
      (''readonly'', fmtBool (ReadOnly d)),
      (''partitioned'', fmtBool (Partitioned d)),
      (''holders'', Join (st (Holders d)) '',''),
      (''mountpoints'', Join (st (MountPoints d)) '',''),
      (''swapon'', fmtBool (SwapOn d)),
      (''cdrom'', fmtBool (CDROM d)),
      (''dmname'', DMName d),
      (''udevdata'', Join (toSlice (udevData d) ''='') '';'')]"

definition stringToHash :: "store \<Rightarrow> Device \<Rightarrow> string \<Rightarrow> string" where
  "stringToHash st d nodeID = Join (toSlice (deviceMap st d nodeID) '':'') [CHR 0x0A]"

text \<open>
  \<open>ID\<close> returns the fingerprint and the store it leaves behind. The argument \<open>digest\<close>
  stands for the library functions applied to the serialized text: SHA-256 followed by
  standard base64.
\<close>

definition ID :: "(string \<Rightarrow> string) \<Rightarrow> store \<Rightarrow> Device \<Rightarrow> string \<Rightarrow> string \<times> store" where
  "ID digest st d nodeID =
     (let st1 = sortStrings st (Holders d);
          st2 = sortStrings st1 (MountPoints d)
      in (MajorMinor d @ ''$'' @ digest (stringToHash st2 d nodeID), st2))"

definition Make :: "Device \<Rightarrow> string" where
  "Make d =
     (let tokens0 = (if DMName d \<noteq> [] then [DMName d] else []);
          tokens1 = (if lookup (udevData d) ''E:ID_VENDOR'' \<noteq> []
                     then tokens0 @ [lookup (udevData d) ''E:ID_VENDOR''] else tokens0);
          tokens2 = (if lookup (udevData d) ''E:ID_MODEL'' \<noteq> []
                     then tokens1 @ [lookup (udevData d) ''E:ID_MODEL''] else tokens1);
          tokens3 = (case map_of (udevData d) ''E:ID_PART_ENTRY_NUMBER'' of
                       Some number \<Rightarrow> tokens2 @ [''(Part '' @ number @ '')'']
                     | None \<Rightarrow> tokens2)
      in Join tokens3 '' '')"

text \<open>
  The text that \<open>ID\<close> hashes, written out line by line for a device, a node and the two
  lists; the lines are in the order of their keys.
\<close>

definition serialized :: "Device \<Rightarrow> string \<Rightarrow> string list \<Rightarrow> string list \<Rightarrow> string" where
  "serialized d n hs ms =
     ''cdrom:'' @ fmtBool (CDROM d) @ [CHR 0x0A] @
     ''dmname:'' @ DMName d @ [CHR 0x0A] @
     ''hidden:'' @ fmtBool (Hidden d) @ [CHR 0x0A] @
     ''holders:'' @ Join hs '','' @ [CHR 0x0A] @
     ''majorminor:'' @ MajorMinor d @ [CHR 0x0A] @
     ''mountpoints:'' @ Join ms '','' @ [CHR 0x0A] @
     ''name:'' @ Name d @ [CHR 0x0A] @
     ''node:'' @ n @ [CHR 0x0A] @
     ''partitioned:'' @ fmtBool (Partitioned d) @ [CHR 0x0A] @
     ''readonly:'' @ fmtBool (ReadOnly d) @ [CHR 0x0A] @
     ''removable:'' @ fmtBool (Removable d) @ [CHR 0x0A] @
     ''size:'' @ decimal (unat (Size d)) @ [CHR 0x0A] @
     ''swapon:'' @ fmtBool (SwapOn d) @ [CHR 0x0A] @
     ''udevdata:'' @ Join (toSlice (udevData d) ''='') '';''"

text \<open>
  The text that \<open>ID\<close> passes to the digest: the local \<^verbatim>\<open>stringToHash\<close>, computed after
  the two lists have been sorted.
\<close>

definition hashedText :: "store \<Rightarrow> Device \<Rightarrow> string \<Rightarrow> string" where
  "hashedText st d n = stringToHash (sortStrings (sortStrings st (Holders d)) (MountPoints d)) d n"

text \<open>
  Names that the serialization keeps apart: a list of non-empty names none of which
  contains the separator, and metadata pairs with distinct keys (as in a Go map) whose
  keys contain neither \<^verbatim>\<open>=\<close> nor \<^verbatim>\<open>;\<close> and whose values contain no \<^verbatim>\<open>;\<close>.
\<close>

definition plainNames :: "char \<Rightarrow> string list \<Rightarrow> bool" where
  "plainNames c xs = list_all (\<lambda>x. x \<noteq> [] \<and> c \<notin> set x) xs"

definition plainPairs :: "(string \<times> string) list \<Rightarrow> bool" where
  "plainPairs u \<longleftrightarrow>
     distinct (map fst u)
     \<and> list_all (\<lambda>(k, v). CHR ''='' \<notin> set k \<and> CHR '';'' \<notin> set k \<and> CHR '';'' \<notin> set v) u"

text \<open>
  Instances for closed theorems: a stand-in for the digest (the identity), a device
  whose holders are in array 0 and whose mount points are in array 1, and stores for it.
\<close>

definition plainDigest :: "string \<Rightarrow> string" where
  "plainDigest s = s"

definition sdb :: Device where
  "sdb = \<lparr>Name = ''sdb'', MajorMinor = ''8:16'', Size = 1073741824, Hidden = False,
           Removable = False, ReadOnly = False, Partitioned = False, Holders = 0,
           MountPoints = 1, SwapOn = False, CDROM = False, DMName = [], udevData = []\<rparr>"

definition emptyStore :: store where
  "emptyStore a = []"

definition unsortedStore :: store where
  "unsortedStore = emptyStore(0 := [''dm-1'', ''dm-0''], 1 := [''/mnt/b'', ''/mnt/a''])"

definition sortedStore :: store where
  "sortedStore = emptyStore(0 := [''dm-0'', ''dm-1''], 1 := [''/mnt/a'', ''/mnt/b''])"

definition commaStore :: store where
  "commaStore = emptyStore(1 := [''/mnt/a,/mnt/b''])"

definition splitStore :: store where
  "splitStore = emptyStore(1 := [''/mnt/a'', ''/mnt/b''])"

section \<open>Initialization handler (package initrequest)\<close>

subsection \<open>Data\<close>

text \<open>
  A Go \<^verbatim>\<open>error\<close> of the pipeline is used through its message only, so it is the message;
  \<open>None\<close> is \<^verbatim>\<open>nil\<close>. Errors of the cluster client are asked for their kind
  (\<^verbatim>\<open>apierrors.IsNotFound\<close>, the conflict test of \<^verbatim>\<open>retry.RetryOnConflict\<close>).
\<close>

type_synonym error = string

datatype api_error = NotFound | Conflict | ApiError string

text \<open>
  Modelled from the spec: the lifecycle statuses of a drive; the type is declared outside
  the sources at hand, which use the statuses Ready, InUse and Unavailable. Of the access
  tiers only the default one occurs.
\<close>

datatype DriveStatus = Available | Ready | InUse | Unavailable | Terminating

datatype AccessTier = AccessTierDefault | AccessTierOther string

text \<open>The arguments \<^verbatim>\<open>types.NewDrive\<close> is called with make up the Drive record.\<close>

record Drive =
  drvID :: string
  drvTotalCapacity :: "64 word"
  drvFreeCapacity :: "64 word"
  drvFSUUID :: string
  drvStatus :: DriveStatus
  drvMake :: string
  drvTopology :: "(string \<times> string) list"
  drvNodeID :: string
  drvName :: string
  drvAccessTier :: AccessTier

record InitDevice =
  initID :: string
  initName :: string
  initMajorMinor :: string
  initForce :: bool

record InitDeviceResult =
  resName :: string
  resError :: string

record InitResult =
  Completed :: bool
  Devices :: "InitDeviceResult list"
  Error :: string

text \<open>
  \<^verbatim>\<open>Status.Request\<close> is only read. \<^verbatim>\<open>Spec.Response\<close> is written: a nil Go map (\<open>None\<close>)
  reads as empty and panics on a write.
\<close>

record InitRequest =
  reqName :: string
  Request :: "string \<rightharpoonup> InitDevice list"
  Response :: "(string \<rightharpoonup> InitResult) option"

datatype EventType = AddEvent | UpdateEvent | DeleteEvent | SyncEvent

text \<open>Every call that reaches the host or the cluster is recorded, in order.\<close>

datatype action =
    GetDevices "string list"
  | GetMounts
  | MakeFS string string bool bool
  | Mount string string
  | Unmount string
  | Symlink string
  | MakeMetaDir string
  | WriteFile string string
  | CreateDrive Drive
  | GetInitRequest string
  | UpdateInitRequest InitRequest

text \<open>
  The fields of \<^verbatim>\<open>initRequestEventHandler\<close>. The function fields are the injected
  collaborators; each one is given by the result it returns for its arguments.
  \<open>getMounts\<close> returns the two maps with the sets already listed
  (\<^verbatim>\<open>StringSet.ToSlice\<close>).
\<close>

record handler =
  nodeID :: string
  reflink :: bool
  topology :: "(string \<times> string) list"
  getDevices :: "string list \<Rightarrow> error + Device list"
  getMounts :: "error + ((string \<rightharpoonup> string list) \<times> (string \<rightharpoonup> string list))"
  makeFS :: "string \<Rightarrow> string \<Rightarrow> bool \<Rightarrow> bool \<Rightarrow> error + (string \<times> string \<times> 64 word \<times> 64 word)"
  mount :: "string \<Rightarrow> string \<Rightarrow> error option"
  unmount :: "string \<Rightarrow> error option"
  symlink :: "string \<Rightarrow> error option"
  makeMetaDir :: "string \<Rightarrow> error option"
  writeFile :: "string \<Rightarrow> string \<Rightarrow> error option"

text \<open>
  What the handler reaches outside its own fields: \<^verbatim>\<open>utils.AddDevPrefix\<close>, the drive and
  init-request clients of package client, the number of attempts of
  \<^verbatim>\<open>retry.DefaultRetry\<close>, the digest used by \<open>ID\<close>, and the UUID that \<^verbatim>\<open>uuid.New()\<close>
  draws in the pipeline of each result slot. The init-request client is given per
  attempt of the retry loop.
\<close>

record env =
  AddDevPrefix :: "string \<Rightarrow> string"
  DriveCreate :: "Drive \<Rightarrow> error option"
  InitRequestGet :: "nat \<Rightarrow> string \<Rightarrow> api_error + InitRequest"
  InitRequestUpdate :: "nat \<Rightarrow> InitRequest \<Rightarrow> api_error option"
  retrySteps :: nat
  digest :: "string \<Rightarrow> string"
  newUUID :: "nat \<Rightarrow> string"

definition AppName :: string where
  "AppName = ''directpv''"

definition LatestAPIVersion :: string where
  "LatestAPIVersion = ''v1beta1''"

text \<open>\<^verbatim>\<open>fmt.Sprintf("%v", xs)\<close> for a slice of strings.\<close>

definition fmtStrings :: "string list \<Rightarrow> string" where
  "fmtStrings xs = ''['' @ Join xs '' '' @ '']''"

subsection \<open>The single-device pipeline\<close>

text \<open>
  The deferred function literal of \<^verbatim>\<open>initDevice\<close>. It reads the local variable
  \<^verbatim>\<open>err\<close> and may assign to it. It returns the calls it made and the final value of
  that local variable.
\<close>

definition deferredUnmount :: "handler \<Rightarrow> string \<Rightarrow> error option \<Rightarrow> action list \<times> error option" where
  "deferredUnmount h fsuuid err =
     (case err of
        None \<Rightarrow> ([], None)
      | Some e \<Rightarrow>
          (case unmount h fsuuid of
             None \<Rightarrow> ([Unmount fsuuid], Some e)
           | Some uerr \<Rightarrow> ([Unmount fsuuid], Some (e @ ''; '' @ uerr))))"

text \<open>The text of the metadata file and the Drive that the pipeline submits.\<close>

definition metaData :: "string \<Rightarrow> string" where
  "metaData fsuuid =
     ''APP_NAME='' @ AppName @ [CHR 0x0A] @ ''APP_VERSION='' @ LatestAPIVersion @ [CHR 0x0A]
       @ ''FSUUID='' @ fsuuid @ [CHR 0x0A]"

definition newDrive :: "handler \<Rightarrow> string \<Rightarrow> Device \<Rightarrow> 64 word \<Rightarrow> 64 word \<Rightarrow> Drive" where
  "newDrive h fsuuid device totalCapacity freeCapacity =
     \<lparr>drvID = fsuuid, drvTotalCapacity = totalCapacity, drvFreeCapacity = freeCapacity,
      drvFSUUID = fsuuid, drvStatus = Ready, drvMake = Make device, drvTopology = topology h,
      drvNodeID = nodeID h, drvName = Name device, drvAccessTier = AccessTierDefault\<rparr>"

text \<open>
  The statements after the \<^verbatim>\<open>defer\<close>. The result is the calls made, the operand of the
  \<^verbatim>\<open>return\<close> statement that was reached, and the value of the local \<^verbatim>\<open>err\<close> at that
  moment. The two differ when the drive creation fails: \<^verbatim>\<open>err\<close> holds the client's
  error and the operand is a new error that wraps it.
\<close>

definition afterMount ::
  "env \<Rightarrow> handler \<Rightarrow> string \<Rightarrow> Device \<Rightarrow> 64 word \<Rightarrow> 64 word
     \<Rightarrow> action list \<times> error option \<times> error option" where
  "afterMount e h fsuuid device totalCapacity freeCapacity =
     (case symlink h fsuuid of
        Some err \<Rightarrow> ([Symlink fsuuid], Some err, Some err)
      | None \<Rightarrow>
     (case makeMetaDir h fsuuid of
        Some err \<Rightarrow> ([Symlink fsuuid, MakeMetaDir fsuuid], Some err, Some err)
      | None \<Rightarrow>
     (let data = metaData fsuuid in
     (case writeFile h fsuuid data of
        Some err \<Rightarrow>
          ([Symlink fsuuid, MakeMetaDir fsuuid, WriteFile fsuuid data], Some err, Some err)
      | None \<Rightarrow>
     (let drive = newDrive h fsuuid device totalCapacity freeCapacity;
          calls = [Symlink fsuuid, MakeMetaDir fsuuid, WriteFile fsuuid data, CreateDrive drive]
      in
     (case DriveCreate e drive of
        Some err \<Rightarrow> (calls, Some (''unable to create Drive CRD; '' @ err), Some err)
      | None \<Rightarrow> (calls, None, None)))))))"

text \<open>
  The loop that collects the current mount points of the device: the devices listed
  under its major:minor, and for each the mount points listed under its name.
\<close>

definition currentMountPoints ::
  "(string \<rightharpoonup> string list) \<Rightarrow> (string \<rightharpoonup> string list) \<Rightarrow> Device \<Rightarrow> string list" where
  "currentMountPoints devMap majorMinorMap device =
     (case majorMinorMap (MajorMinor device) of
        None \<Rightarrow> []
      | Some devices \<Rightarrow>
          concat (map (\<lambda>name. case devMap name of None \<Rightarrow> [] | Some ps \<Rightarrow> ps) devices))"

text \<open>
  \<^verbatim>\<open>initDevice\<close> declares its result as a plain \<^verbatim>\<open>error\<close>, without a name. A
  \<^verbatim>\<open>return\<close> statement therefore stores its operand in the result first and runs the
  deferred function afterwards; an assignment to the local \<^verbatim>\<open>err\<close> inside the deferred
  function does not reach the result. The model returns the calls made and the result.
  The argument \<open>fsuuid\<close> is the UUID that \<^verbatim>\<open>uuid.New()\<close> draws.
\<close>

definition initDevice ::
  "env \<Rightarrow> handler \<Rightarrow> string \<Rightarrow> Device \<Rightarrow> bool \<Rightarrow> bool \<Rightarrow> action list \<times> error option" where
  "initDevice e h fsuuid device force rl =
     (let devPath = AddDevPrefix e (Name device) in
      case getMounts h of
        Inl err \<Rightarrow> ([GetMounts], Some err)
      | Inr (devMap, majorMinorMap) \<Rightarrow>
     (let mountPoints = currentMountPoints devMap majorMinorMap device in
      if length mountPoints \<noteq> 0 then
        ([GetMounts], Some (''device '' @ devPath @ '' mounted at '' @ fmtStrings mountPoints))
      else
     (case makeFS h devPath fsuuid force rl of
        Inl err \<Rightarrow> ([GetMounts, MakeFS devPath fsuuid force rl], Some err)
      | Inr (_, _, totalCapacity, freeCapacity) \<Rightarrow>
     (case mount h devPath fsuuid of
        Some err \<Rightarrow> ([GetMounts, MakeFS devPath fsuuid force rl, Mount devPath fsuuid], Some err)
      | None \<Rightarrow>
     (case afterMount e h fsuuid device totalCapacity freeCapacity of
        (calls, result, err) \<Rightarrow>
          (case deferredUnmount h fsuuid err of
             (deferredCalls, _) \<Rightarrow>
               ([GetMounts, MakeFS devPath fsuuid force rl, Mount devPath fsuuid]
                  @ calls @ deferredCalls,
                result)))))))"

subsection \<open>The batch\<close>

text \<open>
  The map \<^verbatim>\<open>probedDevices\<close>: a later device with the same major:minor replaces an
  earlier one.
\<close>

definition probedDevices :: "Device list \<Rightarrow> (string \<rightharpoonup> Device)" where
  "probedDevices devices = foldl (\<lambda>m device. m(MajorMinor device \<mapsto> device)) Map.empty devices"

text \<open>
  One round of the loop over the requested devices, for the slot with index \<open>i\<close>: the
  result written to the slot, the calls of the pipeline started for it (none when no
  pipeline is started) and the store.
\<close>

definition initSlot ::
  "env \<Rightarrow> handler \<Rightarrow> (string \<rightharpoonup> Device) \<Rightarrow> store \<Rightarrow> nat \<Rightarrow> InitDevice
     \<Rightarrow> InitDeviceResult \<times> action list \<times> store" where
  "initSlot e h probed st i req =
     (case probed (initMajorMinor req) of
        None \<Rightarrow> (\<lparr>resName = initName req, resError = ''device not found''\<rparr>, [], st)
      | Some device \<Rightarrow>
          (case ID (digest e) st device (nodeID h) of
             (fingerprint, st') \<Rightarrow>
               if fingerprint \<noteq> initID req then
                 (\<lparr>resName = initName req, resError = ''device state changed''\<rparr>, [], st')
               else
                 (case initDevice e h (newUUID e i) device (initForce req) (reflink h) of
                    (calls, err) \<Rightarrow>
                      (\<lparr>resName = initName req,
                        resError = (case err of None \<Rightarrow> [] | Some msg \<Rightarrow> msg)\<rparr>,
                       calls, st'))))"

text \<open>
  The loop. The pipelines run as goroutines that are joined before the function returns;
  each writes its own slot only, so the model runs them one after the other and keeps the
  calls of each pipeline apart, one list per slot.
\<close>

fun initLoop ::
  "env \<Rightarrow> handler \<Rightarrow> (string \<rightharpoonup> Device) \<Rightarrow> store \<Rightarrow> nat \<Rightarrow> InitDevice list
     \<Rightarrow> InitDeviceResult list \<times> action list list \<times> store" where
  "initLoop e h probed st i [] = ([], [], st)"
| "initLoop e h probed st i (req # reqs) =
     (case initSlot e h probed st i req of
        (r, calls, st') \<Rightarrow>
          (case initLoop e h probed st' (Suc i) reqs of
             (rs, callss, st'') \<Rightarrow> (r # rs, calls # callss, st'')))"

text \<open>
  \<^verbatim>\<open>initDevices\<close> returns \<^verbatim>\<open>(nil, err)\<close> when the probe fails and \<^verbatim>\<open>(results, nil)\<close>
  otherwise. The model returns that, the call of the probe, the calls of the pipelines
  (one list per slot) and the store.
\<close>

definition initDevices ::
  "env \<Rightarrow> handler \<Rightarrow> store \<Rightarrow> InitDevice list
     \<Rightarrow> (error + InitDeviceResult list) \<times> action list \<times> action list list \<times> store" where
  "initDevices e h st reqs =
     (let majorMinorList = map initMajorMinor reqs in
      case getDevices h majorMinorList of
        Inl err \<Rightarrow> (Inl err, [GetDevices majorMinorList], [], st)
      | Inr devices \<Rightarrow>
          (case initLoop e h (probedDevices devices) st 0 reqs of
             (results, callss, st') \<Rightarrow>
               (Inr results, [GetDevices majorMinorList], callss, st')))"

text \<open>The slice of results that the caller holds: nil when the probe failed.\<close>

definition resultsOf :: "error + InitDeviceResult list \<Rightarrow> InitDeviceResult list" where
  "resultsOf res = (case res of Inl err \<Rightarrow> [] | Inr results \<Rightarrow> results)"

text \<open>
  Two stores hold the same lists up to order when sorting makes them equal. The
  fingerprint of a device depends on the store up to this relation only.
\<close>

definition sameSorted :: "store \<Rightarrow> store \<Rightarrow> bool" where
  "sameSorted st st' \<longleftrightarrow> (\<forall>a. sort (st a) = sort (st' a))"

subsection \<open>The event handler\<close>

text \<open>
  \<^verbatim>\<open>retry.RetryOnConflict(backoff, fn)\<close> of the Kubernetes client library: \<open>fn\<close> is
  called until it returns nil or an error that is not a conflict, at most
  \<^verbatim>\<open>backoff.Steps\<close> times; when the attempts run out the last conflict is returned.
  \<open>fn\<close> is given the number of the attempt.
\<close>

fun retryLoop ::
  "nat \<Rightarrow> nat \<Rightarrow> api_error option \<Rightarrow> (nat \<Rightarrow> action list \<times> (api_error, unit) outcome)
     \<Rightarrow> action list \<times> (api_error, unit) outcome" where
  "retryLoop 0 k lastErr fn = ([], (case lastErr of None \<Rightarrow> Ok () | Some err \<Rightarrow> Err err))"
| "retryLoop (Suc n) k lastErr fn =
     (case fn k of
        (calls, Err Conflict) \<Rightarrow>
          (case retryLoop n (Suc k) (Some Conflict) fn of
             (calls', r) \<Rightarrow> (calls @ calls', r))
      | (calls, r) \<Rightarrow> (calls, r))"

definition RetryOnConflict ::
  "nat \<Rightarrow> (nat \<Rightarrow> action list \<times> (api_error, unit) outcome)
     \<Rightarrow> action list \<times> (api_error, unit) outcome" where
  "RetryOnConflict steps fn = retryLoop steps 0 None fn"

text \<open>The function literal that \<^verbatim>\<open>Handle\<close> passes to \<^verbatim>\<open>retry.RetryOnConflict\<close>.\<close>

definition updateResponse ::
  "env \<Rightarrow> handler \<Rightarrow> string \<Rightarrow> InitResult \<Rightarrow> nat \<Rightarrow> action list \<times> (api_error, unit) outcome" where
  "updateResponse e h name initResult k =
     (case InitRequestGet e k name of
        Inl err \<Rightarrow> ([GetInitRequest name], if err = NotFound then Ok () else Err err)
      | Inr initRequest \<Rightarrow>
          (case Response initRequest of
             None \<Rightarrow> ([GetInitRequest name], Panic)
           | Some response \<Rightarrow>
               (let initRequest' = initRequest\<lparr>Response := Some (response(nodeID h \<mapsto> initResult))\<rparr>
                in ([GetInitRequest name, UpdateInitRequest initRequest'],
                    (case InitRequestUpdate e k initRequest' of
                       None \<Rightarrow> Ok ()
                     | Some err \<Rightarrow> Err err)))))"

text \<open>
  \<^verbatim>\<open>Handle\<close> returns the calls made, its result and the store. The handler's mutex
  serializes the calls of \<^verbatim>\<open>Handle\<close>; the model is of one call.
\<close>

definition Handle ::
  "env \<Rightarrow> handler \<Rightarrow> store \<Rightarrow> EventType \<Rightarrow> InitRequest
     \<Rightarrow> action list \<times> (api_error, unit) outcome \<times> store" where
  "Handle e h st event initRequest =
     (if event = AddEvent \<or> event = UpdateEvent \<or> event = SyncEvent then
        (case (case Response initRequest of None \<Rightarrow> None | Some response \<Rightarrow> response (nodeID h)) of
           Some _ \<Rightarrow> ([], Ok (), st)
         | None \<Rightarrow>
        (case Request initRequest (nodeID h) of
           None \<Rightarrow> ([], Ok (), st)
         | Some devices \<Rightarrow>
        (case initDevices e h st devices of
           (res, probeCalls, callss, st') \<Rightarrow>
             (let initResult =
                    (case res of
                       Inr results \<Rightarrow> \<lparr>Completed = True, Devices = results, Error = []\<rparr>
                     | Inl err \<Rightarrow> \<lparr>Completed = True, Devices = [], Error = err\<rparr>)
              in
              case RetryOnConflict (retrySteps e) (updateResponse e h (reqName initRequest) initResult) of
                (calls, r) \<Rightarrow>
                  (probeCalls @ concat callss @ calls, r, st')))))
      else ([], Ok (), st))"

subsection \<open>Instances for closed theorems\<close>

text \<open>
  A handler and an environment in which every collaborator succeeds and nothing is
  mounted, and variants in which one step fails.
\<close>

definition okHandler :: handler where
  "okHandler =
     \<lparr>nodeID = ''node1'', reflink = False, topology = [],
      getDevices = (\<lambda>majorMinor. Inr [sdb]),
      getMounts = Inr (Map.empty, Map.empty),
      makeFS = (\<lambda>device fsuuid force rl. Inr (fsuuid, ''DIRECTPV'', 1073741824, 1000000000)),
      mount = (\<lambda>device fsuuid. None),
      unmount = (\<lambda>fsuuid. None),
      symlink = (\<lambda>fsuuid. None),
      makeMetaDir = (\<lambda>fsuuid. None),
      writeFile = (\<lambda>fsuuid data. None)\<rparr>"

definition okEnv :: env where
  "okEnv =
     \<lparr>AddDevPrefix = (\<lambda>name. ''/dev/'' @ name),
      DriveCreate = (\<lambda>drive. None),
      InitRequestGet = (\<lambda>k name. Inl NotFound),
      InitRequestUpdate = (\<lambda>k initRequest. None),
      retrySteps = 5,
      digest = plainDigest,
      newUUID = (\<lambda>i. ''uuid-'' @ decimal i)\<rparr>"

definition symlinkAndUnmountFail :: handler where
  "symlinkAndUnmountFail =
     okHandler\<lparr>symlink := (\<lambda>fsuuid. Some ''symlink failed''),
               unmount := (\<lambda>fsuuid. Some ''unmount failed'')\<rparr>"

definition createFails :: env where
  "createFails = okEnv\<lparr>DriveCreate := (\<lambda>drive. Some ''already exists'')\<rparr>"

text \<open>
  Three requested devices for the node of \<open>okHandler\<close>, whose probe returns the device
  \<open>sdb\<close> alone: one whose major:minor is not probed, one with a fingerprint that is
  not the probed one, and one with the fingerprint of \<open>sdb\<close>. And a request to which
  the node has already responded.
\<close>

definition absentRequest :: InitDevice where
  "absentRequest =
     \<lparr>initID = ''9:9$none'', initName = ''sdz'', initMajorMinor = ''9:9'', initForce = False\<rparr>"

definition changedRequest :: InitDevice where
  "changedRequest =
     \<lparr>initID = ''8:16$stale'', initName = ''sdb'', initMajorMinor = ''8:16'', initForce = False\<rparr>"

definition matchingRequest :: InitDevice where
  "matchingRequest =
     \<lparr>initID = fst (ID plainDigest sortedStore sdb ''node1''), initName = ''sdb'',
      initMajorMinor = ''8:16'', initForce = True\<rparr>"

definition batch :: "InitDevice list" where
  "batch = [absentRequest, changedRequest, matchingRequest]"

definition doneResult :: InitResult where
  "doneResult = \<lparr>Completed = True, Devices = [], Error = []\<rparr>"

definition processedRequest :: InitRequest where
  "processedRequest =
     \<lparr>reqName = ''req1'',
      Request = [''node1'' \<mapsto> batch],
      Response = Some [''node1'' \<mapsto> doneResult]\<rparr>"

section \<open>Finalizer repair (kubectl plugin, drives reclaim and drives check)\<close>















section \<open>Results about the event decoder\<close>

lemma Uint32_Some_length: "Uint32 b = Some m \<Longrightarrow> 4 \<le> length b"
  by (auto simp: Uint32_def split: if_splits)

text \<open>
  C2. The claim says that \<open>parse\<close> never crashes, in particular not on a buffer that
  starts with the signature and is shorter than 17 bytes. In the source the magic is read
  with \<^verbatim>\<open>binary.BigEndian.Uint32(msg[8:])\<close> and the offset with \<^verbatim>\<open>msg[16]\<close>, and
  no length is tested before either read. Hence every buffer that carries the signature
  and has fewer than 12 bytes panics at the magic read, and every buffer of 12 to 16
  bytes with the right magic panics at the offset read.
\<close>

theorem parse_short_buffer_panics:
  assumes "prefix libudev msg"
    and "length msg < 17"
    and "length msg < 12 \<or> Uint32 (drop 8 msg) = Some libudevMagic"
  shows "parse libudev libudevMagic msg = Panic"
proof (cases "length msg < 12")
  case True
  then have "length msg < 8 \<or> Uint32 (drop 8 msg) = None"
    by (auto simp: Uint32_def)
  with assms(1) show ?thesis
    by (auto simp: parse_def)
next
  case False
  with assms(3) have m: "Uint32 (drop 8 msg) = Some libudevMagic"
    by simp
  from False have "\<not> length msg < 8"
    by simp
  with assms(1,2) m show ?thesis
    by (simp add: parse_def)
qed

theorem parse_short_buffer_panics_witness:
  "prefix udevSignature udevSignature \<and> length udevSignature < 17
   \<and> parse udevSignature udevMagic udevSignature = Panic"
proof -
  have p: "prefix udevSignature udevSignature"
    by simp
  have l: "length udevSignature < 17"
    by (simp add: udevSignature_def)
  have s: "length udevSignature < 12 \<or> Uint32 (drop 8 udevSignature) = Some udevMagic"
    by (simp add: udevSignature_def)
  from parse_short_buffer_panics [OF p l s] p l show ?thesis
    by simp
qed

text \<open>
  C10, as stated. The claim promises the magic-mismatch error for every buffer whose
  magic differs, and the offset error for every buffer whose offset byte is 16 or less.
  The source tests the signature first: the buffer of 17 zero bytes has the magic 0 and
  the offset byte 0, and \<open>parse\<close> fails with the signature error, which is neither.
\<close>

theorem parse_bad_magic_without_signature:
  "Uint32 (drop 8 (replicate 17 (CHR 0x00))) = Some 0
   \<and> (0 :: 32 word) \<noteq> udevMagic
   \<and> of_char (replicate 17 (CHR 0x00) ! 16) \<le> (16 :: nat)
   \<and> parse udevSignature udevMagic (replicate 17 (CHR 0x00)) = Err SignatureNotFound"
proof -
  have m: "Uint32 (drop 8 (replicate 17 (CHR 0x00))) = Some 0"
    by code_simp
  have d: "(0 :: 32 word) \<noteq> udevMagic"
    by (simp add: udevMagic_def)
  have b: "of_char (replicate 17 (CHR 0x00) ! 16) \<le> (16 :: nat)"
    by simp
  have "\<not> prefix udevSignature (replicate 17 (CHR 0x00))"
    by code_simp
  then have p: "parse udevSignature udevMagic (replicate 17 (CHR 0x00)) = Err SignatureNotFound"
    by (simp add: parse_def)
  from m d b p show ?thesis
    by blast
qed

text \<open>
  C10, amended. For every buffer that starts with the signature and whose 4-byte
  big-endian magic at offset 8 differs from the expected constant, \<open>parse\<close> fails with
  the magic-mismatch error; for every buffer that starts with the signature, carries the
  expected magic, and whose payload-offset byte (byte 16) is 16 or less, \<open>parse\<close> fails
  with the offset error.
\<close>

theorem parse_magic_then_offset:
  "(prefix libudev msg \<and> Uint32 (drop 8 msg) = Some magic \<and> magic \<noteq> libudevMagic
      \<longrightarrow> parse libudev libudevMagic msg = Err (MagicMismatch libudevMagic magic))
   \<and> (prefix libudev msg \<and> Uint32 (drop 8 msg) = Some libudevMagic \<and> 16 < length msg
        \<and> of_char (msg ! 16) \<le> (16 :: nat)
      \<longrightarrow> parse libudev libudevMagic msg = Err (OffsetNotMoreThan17 (of_char (msg ! 16))))"
proof (intro conjI impI)
  assume a: "prefix libudev msg \<and> Uint32 (drop 8 msg) = Some magic \<and> magic \<noteq> libudevMagic"
  then have "4 \<le> length (drop 8 msg)"
    using Uint32_Some_length by blast
  then have "\<not> length msg < 8"
    by simp
  with a show "parse libudev libudevMagic msg = Err (MagicMismatch libudevMagic magic)"
    by (simp add: parse_def)
next
  assume a: "prefix libudev msg \<and> Uint32 (drop 8 msg) = Some libudevMagic \<and> 16 < length msg
        \<and> of_char (msg ! 16) \<le> (16 :: nat)"
  then show "parse libudev libudevMagic msg = Err (OffsetNotMoreThan17 (of_char (msg ! 16)))"
    by (simp add: parse_def Let_def)
qed

theorem parse_magic_then_offset_witness:
  "prefix udevSignature badMagicMsg
   \<and> Uint32 (drop 8 badMagicMsg) = Some 0 \<and> 0 \<noteq> udevMagic
   \<and> parse udevSignature udevMagic badMagicMsg = Err (MagicMismatch udevMagic 0)
   \<and> prefix udevSignature badOffsetMsg
   \<and> Uint32 (drop 8 badOffsetMsg) = Some udevMagic
   \<and> 16 < length badOffsetMsg \<and> of_char (badOffsetMsg ! 16) \<le> (16 :: nat)
   \<and> parse udevSignature udevMagic badOffsetMsg = Err (OffsetNotMoreThan17 0)"
proof -
  have p1: "prefix udevSignature badMagicMsg"
    by (simp add: badMagicMsg_def)
  have m1: "Uint32 (drop 8 badMagicMsg) = Some 0"
    by code_simp
  have d1: "(0 :: 32 word) \<noteq> udevMagic"
    by (simp add: udevMagic_def)
  have p2: "prefix udevSignature badOffsetMsg"
    by (simp add: badOffsetMsg_def)
  have m2: "Uint32 (drop 8 badOffsetMsg) = Some udevMagic"
    by code_simp
  have l2: "16 < length badOffsetMsg"
    by (simp add: badOffsetMsg_def udevSignature_def)
  have o2: "of_char (badOffsetMsg ! 16) = (0 :: nat)"
    by (simp add: badOffsetMsg_def udevSignature_def)
  note t1 = parse_magic_then_offset [of udevSignature badMagicMsg 0 udevMagic]
  note t2 = parse_magic_then_offset [of udevSignature badOffsetMsg udevMagic udevMagic]
  from t1 p1 m1 d1
  have r1: "parse udevSignature udevMagic badMagicMsg = Err (MagicMismatch udevMagic 0)"
    by blast
  from t2 p2 m2 l2 o2
  have r2: "parse udevSignature udevMagic badOffsetMsg = Err (OffsetNotMoreThan17 0)"
    by simp
  from p1 m1 d1 r1 p2 m2 l2 o2 r2 show ?thesis
    by simp
qed

section \<open>Results about the drive matcher\<close>

lemma matchLoop_no_match:
  "\<forall>d\<in>set drives. \<not> fst (matchFn d device)
     \<Longrightarrow> matchLoop drives device matchFn acc = (acc, True)"
  by (induction drives arbitrary: acc) (auto split: prod.splits)

lemma match_no_match:
  "\<forall>d\<in>set drives. \<not> fst (matchFn d device) \<Longrightarrow> match drives device matchFn = ([], True)"
  by (simp add: match_def matchLoop_no_match)

lemma matchChain_Nil: "matchChain ms [] device = []"
  by (induction ms) (simp_all add: match_def)

lemma matchChain_no_match:
  "\<forall>d\<in>set drives. \<not> fst (matchFn d device)
     \<Longrightarrow> matchChain (matchFn # rest) drives device = matchChain rest [] device"
  by (simp add: match_no_match)

text \<open>
  C1, as stated. The claim has a criterion that matches none of the current candidates
  leave the candidate set as it was, with the narrowing going on from that set. In the
  source \<^verbatim>\<open>match\<close> returns the drives it has appended, which is the empty list when
  nothing matched, and \<^verbatim>\<open>getMatchingDrives\<close> goes on with that list. With two
  candidates, a first criterion that matches neither and a second criterion that matches
  both, the claim would keep both candidates; the chain ends with none.
\<close>

theorem match_zero_matches_drops_candidates:
  "\<not> fst (matchesNone (1 :: nat) (0 :: nat)) \<and> \<not> fst (matchesNone (2 :: nat) (0 :: nat))
   \<and> match [1 :: nat, 2] (0 :: nat) matchesNone = ([], True)
   \<and> fst (match [1 :: nat, 2] (0 :: nat) matchesNone) \<noteq> [1, 2]
   \<and> match [1 :: nat, 2] (0 :: nat) matchesAll = ([1, 2], True)
   \<and> matchChain [matchesNone, matchesAll] [1 :: nat, 2] (0 :: nat) = []
   \<and> matchChain [matchesNone, matchesAll] [1 :: nat, 2] (0 :: nat) \<noteq> [1, 2]"
  by (simp add: match_def matchesNone_def matchesAll_def)

text \<open>
  C1, amended. For every device, every list of candidate drives and every criterion of
  the chain: when the criterion matches zero of the current candidates, \<open>match\<close>
  returns the empty list with \<open>cont\<close> true, so the candidate set becomes empty at that
  step; the narrowing continues with the next criterion on the empty set, and whatever
  criteria follow, no candidate is left at the end of the chain.
\<close>

theorem match_zero_candidates_empties:
  "(\<forall>d\<in>set drives. \<not> fst (matchFn d device))
     \<longrightarrow> match drives device matchFn = ([], True)
       \<and> matchChain (matchFn # rest) drives device = matchChain rest [] device
       \<and> matchChain (matchFn # rest) drives device = []"
  by (simp add: match_no_match matchChain_Nil)

theorem match_zero_candidates_empties_witness:
  "\<not> fst (matchesNone (1 :: nat) (0 :: nat)) \<and> \<not> fst (matchesNone (2 :: nat) (0 :: nat))
   \<and> match [1 :: nat, 2] (0 :: nat) matchesNone = ([], True)
   \<and> matchChain [matchesNone, matchesAll] [1 :: nat, 2] (0 :: nat)
        = matchChain [matchesAll] [] (0 :: nat)
   \<and> matchChain [matchesNone, matchesAll] [1 :: nat, 2] (0 :: nat) = []"
proof -
  have a: "\<forall>d\<in>set [1 :: nat, 2]. \<not> fst (matchesNone d (0 :: nat))"
    by (simp add: matchesNone_def)
  note t = match_zero_candidates_empties
    [where drives = "[1 :: nat, 2]" and matchFn = matchesNone and device = "0 :: nat"
       and rest = "[matchesAll]"]
  from t a
  have "match [1 :: nat, 2] (0 :: nat) matchesNone = ([], True)
     \<and> matchChain [matchesNone, matchesAll] [1 :: nat, 2] (0 :: nat)
          = matchChain [matchesAll] [] (0 :: nat)
     \<and> matchChain [matchesNone, matchesAll] [1 :: nat, 2] (0 :: nat) = []"
    by blast
  moreover
  have "\<not> fst (matchesNone (1 :: nat) (0 :: nat)) \<and> \<not> fst (matchesNone (2 :: nat) (0 :: nat))"
    by (simp add: matchesNone_def)
  ultimately show ?thesis
    by blast
qed

section \<open>Results about device identity\<close>

lemma digit_inj: "a < 10 \<Longrightarrow> b < 10 \<Longrightarrow> digit a = digit b \<Longrightarrow> a = b"
  unfolding digit_def
  by (subst (asm) nth_eq_iff_index_eq) simp_all

lemma decimal_nonempty: "decimal n \<noteq> []"
  by (subst decimal.simps) simp

lemma decimal_inj: "decimal n = decimal m \<Longrightarrow> n = m"
proof (induction n arbitrary: m rule: decimal.induct)
  case (1 n)
  show ?case
  proof (cases "n < 10")
    case small: True
    show ?thesis
    proof (cases "m < 10")
      case True
      with small "1.prems" show ?thesis
        by (simp add: decimal.simps [of n] decimal.simps [of m] digit_inj)
    next
      case False
      with small "1.prems" show ?thesis
        using decimal_nonempty [of "m div 10"]
        by (simp add: decimal.simps [of n] decimal.simps [of m])
    qed
  next
    case big: False
    show ?thesis
    proof (cases "m < 10")
      case True
      with big "1.prems" show ?thesis
        using decimal_nonempty [of "n div 10"]
        by (simp add: decimal.simps [of n] decimal.simps [of m])
    next
      case False
      with big "1.prems" have e: "decimal (n div 10) = decimal (m div 10)"
        and d: "digit (n mod 10) = digit (m mod 10)"
        by (simp_all add: decimal.simps [of n] decimal.simps [of m])
      from "1.IH" [OF big e] have q: "n div 10 = m div 10" .
      from d have r: "n mod 10 = m mod 10"
        by (intro digit_inj) simp_all
      from q r show ?thesis
        by (metis div_mult_mod_eq)
    qed
  qed
qed

lemma decimal_eq_iff: "decimal n = decimal m \<longleftrightarrow> n = m"
  using decimal_inj by blast

lemma fmtBool_eq_iff: "fmtBool a = fmtBool b \<longleftrightarrow> a = b"
  by (simp add: fmtBool_def)

lemma fmtBool_append_eq_iff: "fmtBool a @ xs = fmtBool b @ xs \<longleftrightarrow> a = b"
  by (simp add: fmtBool_eq_iff)

lemma sort_idem: "sort (sort xs) = sort (xs :: 'a :: linorder list)"
  by (simp add: sorted_sort_id)

lemma sort_mset_cong: "mset xs = mset ys \<Longrightarrow> sort xs = sort (ys :: 'a :: linorder list)"
  by (rule properties_for_sort) simp_all

lemma stringToHash_serialized:
  "stringToHash st d n = serialized d n (st (Holders d)) (st (MountPoints d))"
  by (simp add: stringToHash_def toSlice_def deviceMap_def serialized_def)

lemma ID_store:
  "snd (ID dg st d n) (Holders d) = sort (st (Holders d))
   \<and> snd (ID dg st d n) (MountPoints d) = sort (st (MountPoints d))"
  by (simp add: ID_def sortStrings_def Let_def sort_idem)

lemma ID_fingerprint:
  "fst (ID dg st d n) =
     MajorMinor d @ ''$'' @ dg (serialized d n (sort (st (Holders d))) (sort (st (MountPoints d))))"
  by (simp add: ID_def sortStrings_def Let_def stringToHash_serialized sort_idem)

lemma ID_permutation:
  "mset (st' (Holders d)) = mset (st (Holders d)) \<and> mset (st' (MountPoints d)) = mset (st (MountPoints d))
    \<Longrightarrow> fst (ID dg st' d n) = fst (ID dg st d n)"
  by (simp add: ID_fingerprint sort_mset_cong [of "st' (Holders d)" "st (Holders d)"]
      sort_mset_cong [of "st' (MountPoints d)" "st (MountPoints d)"])

lemma split_at_sep:
  assumes "c \<notin> set x" and "c \<notin> set y"
    and "r = [] \<or> hd r = c" and "r' = [] \<or> hd r' = c"
    and "x @ r = y @ r'"
  shows "x = y \<and> r = r'"
  using assms
proof (induction x arbitrary: y)
  case Nil
  then show ?case
    by (cases y) auto
next
  case (Cons a x)
  show ?case
  proof (cases y)
    case Nil
    with Cons.prems show ?thesis by auto
  next
    case (Cons b y')
    with Cons.prems Cons.IH [of y'] show ?thesis by auto
  qed
qed

lemma Join_Cons: "Join (x # xs) sep = (if xs = [] then x else x @ sep @ Join xs sep)"
  by (cases xs) simp_all

lemma Join_sep_inj:
  assumes "plainNames c xs" and "plainNames c ys" and "Join xs [c] = Join ys [c]"
  shows "xs = ys"
  using assms
proof (induction xs arbitrary: ys)
  case Nil
  then show ?case
    by (cases ys) (auto simp: plainNames_def Join_Cons split: if_splits)
next
  case (Cons x xs)
  show ?case
  proof (cases ys)
    case Nil
    with Cons.prems show ?thesis
      by (auto simp: plainNames_def Join_Cons split: if_splits)
  next
    case (Cons y ys')
    let ?r = "if xs = [] then [] else c # Join xs [c]"
    let ?r' = "if ys' = [] then [] else c # Join ys' [c]"
    from Cons.prems Cons have px: "c \<notin> set x" and py: "c \<notin> set y"
      and pxs: "plainNames c xs" and pys: "plainNames c ys'"
      by (simp_all add: plainNames_def)
    from Cons.prems(3) Cons have e: "x @ ?r = y @ ?r'"
      by (auto simp: Join_Cons split: if_splits)
    have "x = y \<and> ?r = ?r'"
      by (rule split_at_sep [OF px py _ _ e]) simp_all
    then have xy: "x = y" and rr: "?r = ?r'"
      by blast+
    have ne: "\<And>zs. plainNames c zs \<Longrightarrow> zs \<noteq> [] \<Longrightarrow> Join zs [c] \<noteq> []"
      by (case_tac zs) (auto simp: plainNames_def Join_Cons)
    have "xs = ys'"
    proof (cases "xs = []")
      case True
      with rr show ?thesis by (auto split: if_splits)
    next
      case False
      with rr have "ys' \<noteq> []" and "Join xs [c] = Join ys' [c]"
        by (auto split: if_splits)
      with Cons.IH [OF pxs pys] show ?thesis by simp
    qed
    with xy Cons show ?thesis by simp
  qed
qed

lemma plainNames_sort: "plainNames c (sort xs) = plainNames c xs"
  by (simp add: plainNames_def list_all_iff)

lemma Join_sorted_iff:
  assumes "plainNames c xs" and "plainNames c ys"
  shows "Join (sort xs) [c] = Join (sort ys) [c] \<longleftrightarrow> mset xs = mset ys"
proof
  assume e: "Join (sort xs) [c] = Join (sort ys) [c]"
  from assms have px: "plainNames c (sort xs)" and py: "plainNames c (sort ys)"
    by (simp_all only: plainNames_sort)
  from Join_sep_inj [OF px py e] have "sort xs = sort ys" .
  then have "mset (sort xs) = mset (sort ys)"
    by simp
  then show "mset xs = mset ys"
    by simp
next
  assume "mset xs = mset ys"
  then have "sort xs = sort ys"
    by (rule sort_mset_cong)
  then show "Join (sort xs) [c] = Join (sort ys) [c]"
    by simp
qed

lemma render_inj:
  assumes "CHR ''='' \<notin> set k" and "CHR ''='' \<notin> set k'"
    and "k @ ''='' @ v = k' @ ''='' @ v'"
  shows "k = k' \<and> v = v'"
proof -
  from assms(3) have e: "k @ (CHR ''='' # v) = k' @ (CHR ''='' # v')"
    by simp
  have "k = k' \<and> CHR ''='' # v = CHR ''='' # v'"
    by (rule split_at_sep [OF assms(1,2) _ _ e]) simp_all
  then show ?thesis
    by simp
qed

lemma filter_key_distinct:
  "distinct (map f xs) \<Longrightarrow> k \<in> set xs \<Longrightarrow> filter (\<lambda>x. f k = f x) xs = [k]"
proof (induction xs)
  case Nil
  then show ?case by simp
next
  case (Cons a xs)
  show ?case
  proof (cases "k = a")
    case True
    with Cons.prems have "\<forall>x\<in>set xs. f a \<noteq> f x"
      by auto
    then have "filter (\<lambda>x. f a = f x) xs = []"
      by (simp add: filter_empty_conv)
    with True show ?thesis by simp
  next
    case False
    with Cons.prems have kx: "k \<in> set xs" and "distinct (map f xs)"
      by auto
    moreover from Cons.prems(1) kx have "f k \<noteq> f a"
      by (metis distinct.simps(2) image_eqI list.simps(9) set_map)
    ultimately have "k \<in> set xs" and "f k \<noteq> f a" and "distinct (map f xs)"
      by blast+
    with Cons.IH show ?thesis by simp
  qed
qed

lemma sort_key_distinct_mset:
  assumes "distinct (map f xs)" and "mset xs = mset ys"
  shows "sort_key f xs = sort_key f ys"
proof (rule properties_for_sort_key)
  show "mset (sort_key f ys) = mset xs"
    using assms(2) by simp
  show "sorted (map f (sort_key f ys))"
    by simp
  fix k assume k: "k \<in> set (sort_key f ys)"
  from assms(2) have "mset (map f xs) = mset (map f ys)"
    by simp
  with assms(1) have dy: "distinct (map f ys)"
    using mset_eq_imp_distinct_iff by blast
  then have ds: "distinct (map f (sort_key f ys))"
    by (simp add: distinct_map)
  from k have ky: "k \<in> set ys"
    by simp
  with assms(2) have kx: "k \<in> set xs"
    using mset_eq_setD by blast
  from filter_key_distinct [OF ds k] filter_key_distinct [OF assms(1) kx]
  show "filter (\<lambda>x. f k = f x) (sort_key f ys) = filter (\<lambda>x. f k = f x) xs"
    by simp
qed

lemma toSlice_text_iff:
  assumes "plainPairs u" and "plainPairs u'"
  shows "Join (toSlice u ''='') '';'' = Join (toSlice u' ''='') '';'' \<longleftrightarrow> mset u = mset u'"
proof
  let ?render = "\<lambda>(k, v). k @ ''='' @ v"
  assume e: "Join (toSlice u ''='') '';'' = Join (toSlice u' ''='') '';''"
  have plain: "\<And>w. plainPairs w \<Longrightarrow> plainNames (CHR '';'') (toSlice w ''='')"
    by (auto simp: plainPairs_def plainNames_def toSlice_def list_all_iff)
  from Join_sep_inj [OF plain [OF assms(1)] plain [OF assms(2)]] e
  have m: "map ?render (sort_key fst u) = map ?render (sort_key fst u')"
    by (simp add: toSlice_def)
  have "inj_on ?render (set (sort_key fst u) \<union> set (sort_key fst u'))"
  proof (rule inj_onI)
    fix p q
    assume p: "p \<in> set (sort_key fst u) \<union> set (sort_key fst u')"
      and q: "q \<in> set (sort_key fst u) \<union> set (sort_key fst u')"
      and r: "?render p = ?render q"
    from p assms have "CHR ''='' \<notin> set (fst p)"
      by (auto simp: plainPairs_def list_all_iff)
    moreover from q assms have "CHR ''='' \<notin> set (fst q)"
      by (auto simp: plainPairs_def list_all_iff)
    moreover from r have "fst p @ ''='' @ snd p = fst q @ ''='' @ snd q"
      by (simp add: case_prod_beta)
    ultimately have "fst p = fst q \<and> snd p = snd q"
      by (rule render_inj)
    then show "p = q"
      by (simp add: prod_eq_iff)
  qed
  with m have "sort_key fst u = sort_key fst u'"
    by (simp add: inj_on_map_eq_map)
  then have "mset (sort_key fst u) = mset (sort_key fst u')"
    by simp
  then show "mset u = mset u'"
    by simp
next
  assume "mset u = mset u'"
  with assms(1) have "sort_key fst u = sort_key fst u'"
    by (intro sort_key_distinct_mset) (simp_all add: plainPairs_def)
  then show "Join (toSlice u ''='') '';'' = Join (toSlice u' ''='') '';''"
    by (simp add: toSlice_def)
qed

lemma hashedText_serialized:
  "hashedText st d n = serialized d n (sort (st (Holders d))) (sort (st (MountPoints d)))"
  by (simp add: hashedText_def sortStrings_def stringToHash_serialized sort_idem)

lemma ID_hashedText: "fst (ID dg st d n) = MajorMinor d @ ''$'' @ dg (hashedText st d n)"
  by (simp add: ID_fingerprint hashedText_serialized)

lemma hashedText_permutation:
  "mset (st' (Holders d)) = mset (st (Holders d)) \<and> mset (st' (MountPoints d)) = mset (st (MountPoints d))
    \<Longrightarrow> hashedText st' d n = hashedText st d n"
  by (simp add: hashedText_serialized sort_mset_cong [of "st' (Holders d)" "st (Holders d)"]
      sort_mset_cong [of "st' (MountPoints d)" "st (MountPoints d)"])

lemma size_change:
  assumes "s \<noteq> Size d"
  shows "hashedText st (d\<lparr>Size := s\<rparr>) n \<noteq> hashedText st d n"
proof -
  from assms have "unat s \<noteq> unat (Size d)"
    by (simp add: word_unat_eq_iff)
  then show ?thesis
    by (simp add: hashedText_serialized serialized_def decimal_eq_iff)
qed

lemma flag_change:
  "hashedText st (d\<lparr>Hidden := \<not> Hidden d\<rparr>) n \<noteq> hashedText st d n"
  "hashedText st (d\<lparr>Removable := \<not> Removable d\<rparr>) n \<noteq> hashedText st d n"
  "hashedText st (d\<lparr>ReadOnly := \<not> ReadOnly d\<rparr>) n \<noteq> hashedText st d n"
  "hashedText st (d\<lparr>Partitioned := \<not> Partitioned d\<rparr>) n \<noteq> hashedText st d n"
  "hashedText st (d\<lparr>SwapOn := \<not> SwapOn d\<rparr>) n \<noteq> hashedText st d n"
  "hashedText st (d\<lparr>CDROM := \<not> CDROM d\<rparr>) n \<noteq> hashedText st d n"
  by (simp_all add: hashedText_serialized serialized_def fmtBool_eq_iff)

lemma holders_change:
  assumes "Holders d \<noteq> MountPoints d"
    and "plainNames (CHR '','') hs" and "plainNames (CHR '','') (st (Holders d))"
  shows "hashedText (st(Holders d := hs)) d n = hashedText st d n
           \<longleftrightarrow> mset hs = mset (st (Holders d))"
proof -
  from assms(1)
  have "hashedText (st(Holders d := hs)) d n = hashedText st d n
          \<longleftrightarrow> Join (sort hs) [CHR '',''] = Join (sort (st (Holders d))) [CHR '','']"
    by (simp add: hashedText_serialized serialized_def)
  with Join_sorted_iff [OF assms(2,3)] show ?thesis
    by simp
qed

lemma mounts_change:
  assumes "Holders d \<noteq> MountPoints d"
    and "plainNames (CHR '','') ms" and "plainNames (CHR '','') (st (MountPoints d))"
  shows "hashedText (st(MountPoints d := ms)) d n = hashedText st d n
           \<longleftrightarrow> mset ms = mset (st (MountPoints d))"
proof -
  from assms(1)
  have "hashedText (st(MountPoints d := ms)) d n = hashedText st d n
          \<longleftrightarrow> Join (sort ms) [CHR '',''] = Join (sort (st (MountPoints d))) [CHR '','']"
    by (simp add: hashedText_serialized serialized_def)
  with Join_sorted_iff [OF assms(2,3)] show ?thesis
    by simp
qed

lemma udev_change:
  assumes "plainPairs u" and "plainPairs (udevData d)"
  shows "hashedText st (d\<lparr>udevData := u\<rparr>) n = hashedText st d n \<longleftrightarrow> mset u = mset (udevData d)"
proof -
  have "hashedText st (d\<lparr>udevData := u\<rparr>) n = hashedText st d n
          \<longleftrightarrow> Join (toSlice u ''='') '';'' = Join (toSlice (udevData d) ''='') '';''"
    by (simp add: hashedText_serialized serialized_def)
  with toSlice_text_iff [OF assms] show ?thesis
    by simp
qed

lemma fingerprint_digest:
  "MajorMinor d' = MajorMinor d \<Longrightarrow>
     (fst (ID dg st' d' n') = fst (ID dg st d n)
        \<longleftrightarrow> dg (hashedText st' d' n') = dg (hashedText st d n))"
  by (simp add: ID_hashedText)

text \<open>
  C5. The claim says that computing the fingerprint never changes the Device: afterwards
  the holders and the mount points are the original elements in their original order.
  \<^verbatim>\<open>ID\<close> has a value receiver, but \<^verbatim>\<open>sort.Strings(d.Holders)\<close> and
  \<^verbatim>\<open>sort.Strings(d.MountPoints)\<close> sort the backing arrays, which the caller's Device
  shares with the copy. A device whose holders are listed as dm-1, dm-0 and whose
  mount points are listed as /mnt/b, /mnt/a has both lists reordered by the call.
\<close>

theorem ID_reorders_holders_and_mount_points:
  "unsortedStore (Holders sdb) = [''dm-1'', ''dm-0'']
   \<and> snd (ID dg unsortedStore sdb n) (Holders sdb) = [''dm-0'', ''dm-1'']
   \<and> unsortedStore (MountPoints sdb) = [''/mnt/b'', ''/mnt/a'']
   \<and> snd (ID dg unsortedStore sdb n) (MountPoints sdb) = [''/mnt/a'', ''/mnt/b'']"
  by (simp add: ID_store) (simp add: unsortedStore_def sdb_def)

text \<open>
  C6, as stated. The claim has any change of a single comparison attribute yield a
  different fingerprint. The mount points are joined with commas before they are hashed,
  so the one mount point \<^verbatim>\<open>/mnt/a,/mnt/b\<close> and the two mount points \<^verbatim>\<open>/mnt/a\<close> and
  \<^verbatim>\<open>/mnt/b\<close> give the same text and the same fingerprint, with every other attribute
  equal and even with a digest that has no collisions.
\<close>

theorem fingerprint_same_for_joined_mount_points:
  "commaStore (MountPoints sdb) = [''/mnt/a,/mnt/b'']
   \<and> splitStore (MountPoints sdb) = [''/mnt/a'', ''/mnt/b'']
   \<and> commaStore (Holders sdb) = splitStore (Holders sdb)
   \<and> fst (ID plainDigest commaStore sdb ''node1'') = fst (ID plainDigest splitStore sdb ''node1'')"
  by (simp add: ID_fingerprint serialized_def) (simp add: commaStore_def splitStore_def sdb_def)

text \<open>
  C6, amended. For every Device snapshot and node identity, the fingerprint is the
  major:minor, a dollar sign and the digest of a text serialized from the comparison
  attributes, and it is unchanged under any permutation of the holder list and of the
  mount-point list. A change of the size alone or of one flag alone (hidden, removable,
  read-only, partitioned, swap, CD-ROM) changes that text. A change of the holders alone
  or of the mount points alone, between lists of non-empty names without a comma (the two
  lists held in different arrays), changes the text unless the new list is a permutation
  of the old one. A change of the raw metadata alone, between maps whose keys contain
  neither "=" nor ";" and whose values contain no ";", changes the text unless the pairs
  are the same. Two fingerprints with the same major:minor differ exactly when the
  digests of their texts differ: a changed text yields a different fingerprint unless the
  digest collides on the two texts.
\<close>

theorem fingerprint_permutation_and_change:
  "fst (ID dg st d n) = MajorMinor d @ ''$'' @ dg (hashedText st d n)
   \<and> (mset (st' (Holders d)) = mset (st (Holders d))
        \<and> mset (st' (MountPoints d)) = mset (st (MountPoints d))
      \<longrightarrow> hashedText st' d n = hashedText st d n \<and> fst (ID dg st' d n) = fst (ID dg st d n))
   \<and> (s \<noteq> Size d \<longrightarrow> hashedText st (d\<lparr>Size := s\<rparr>) n \<noteq> hashedText st d n)
   \<and> hashedText st (d\<lparr>Hidden := \<not> Hidden d\<rparr>) n \<noteq> hashedText st d n
   \<and> hashedText st (d\<lparr>Removable := \<not> Removable d\<rparr>) n \<noteq> hashedText st d n
   \<and> hashedText st (d\<lparr>ReadOnly := \<not> ReadOnly d\<rparr>) n \<noteq> hashedText st d n
   \<and> hashedText st (d\<lparr>Partitioned := \<not> Partitioned d\<rparr>) n \<noteq> hashedText st d n
   \<and> hashedText st (d\<lparr>SwapOn := \<not> SwapOn d\<rparr>) n \<noteq> hashedText st d n
   \<and> hashedText st (d\<lparr>CDROM := \<not> CDROM d\<rparr>) n \<noteq> hashedText st d n
   \<and> (Holders d \<noteq> MountPoints d \<and> plainNames (CHR '','') hs
        \<and> plainNames (CHR '','') (st (Holders d))
      \<longrightarrow> (hashedText (st(Holders d := hs)) d n = hashedText st d n
             \<longleftrightarrow> mset hs = mset (st (Holders d))))
   \<and> (Holders d \<noteq> MountPoints d \<and> plainNames (CHR '','') ms
        \<and> plainNames (CHR '','') (st (MountPoints d))
      \<longrightarrow> (hashedText (st(MountPoints d := ms)) d n = hashedText st d n
             \<longleftrightarrow> mset ms = mset (st (MountPoints d))))
   \<and> (plainPairs u \<and> plainPairs (udevData d)
      \<longrightarrow> (hashedText st (d\<lparr>udevData := u\<rparr>) n = hashedText st d n
             \<longleftrightarrow> mset u = mset (udevData d)))
   \<and> (MajorMinor d' = MajorMinor d
      \<longrightarrow> (fst (ID dg st' d' n') = fst (ID dg st d n)
             \<longleftrightarrow> dg (hashedText st' d' n') = dg (hashedText st d n)))"
  using ID_hashedText [where dg = dg and st = st and d = d and n = n]
    hashedText_permutation [where st = st and st' = st' and d = d and n = n]
    ID_permutation [where st = st and st' = st' and d = d and dg = dg and n = n]
    size_change [where s = s and d = d and st = st and n = n]
    flag_change [where d = d and st = st and n = n]
    holders_change [where d = d and st = st and n = n and hs = hs]
    mounts_change [where d = d and st = st and n = n and ms = ms]
    udev_change [where d = d and st = st and n = n and u = u]
    fingerprint_digest [where d = d and d' = d' and st = st and st' = st' and n = n
      and n' = n' and dg = dg]
  by blast

theorem fingerprint_permutation_and_change_witness:
  "mset (unsortedStore (Holders sdb)) = mset (sortedStore (Holders sdb))
   \<and> mset (unsortedStore (MountPoints sdb)) = mset (sortedStore (MountPoints sdb))
   \<and> hashedText unsortedStore sdb ''node1'' = hashedText sortedStore sdb ''node1''
   \<and> fst (ID plainDigest unsortedStore sdb ''node1'') = fst (ID plainDigest sortedStore sdb ''node1'')
   \<and> 0 \<noteq> Size sdb
   \<and> hashedText sortedStore (sdb\<lparr>Size := 0\<rparr>) ''node1'' \<noteq> hashedText sortedStore sdb ''node1''
   \<and> hashedText sortedStore (sdb\<lparr>ReadOnly := \<not> ReadOnly sdb\<rparr>) ''node1''
        \<noteq> hashedText sortedStore sdb ''node1''
   \<and> Holders sdb \<noteq> MountPoints sdb
   \<and> plainNames (CHR '','') [''dm-2''] \<and> plainNames (CHR '','') (sortedStore (Holders sdb))
   \<and> mset [''dm-2''] \<noteq> mset (sortedStore (Holders sdb))
   \<and> hashedText (sortedStore(Holders sdb := [''dm-2''])) sdb ''node1''
        \<noteq> hashedText sortedStore sdb ''node1''
   \<and> plainNames (CHR '','') [''/mnt/b'', ''/mnt/c'']
   \<and> plainNames (CHR '','') (sortedStore (MountPoints sdb))
   \<and> mset [''/mnt/b'', ''/mnt/c''] \<noteq> mset (sortedStore (MountPoints sdb))
   \<and> hashedText (sortedStore(MountPoints sdb := [''/mnt/b'', ''/mnt/c''])) sdb ''node1''
        \<noteq> hashedText sortedStore sdb ''node1''
   \<and> plainPairs [(''E:ID_FS_TYPE'', ''xfs'')] \<and> plainPairs (udevData sdb)
   \<and> mset [(''E:ID_FS_TYPE'', ''xfs'')] \<noteq> mset (udevData sdb)
   \<and> hashedText sortedStore (sdb\<lparr>udevData := [(''E:ID_FS_TYPE'', ''xfs'')]\<rparr>) ''node1''
        \<noteq> hashedText sortedStore sdb ''node1''
   \<and> MajorMinor (sdb\<lparr>Size := 0\<rparr>) = MajorMinor sdb
   \<and> plainDigest (hashedText sortedStore (sdb\<lparr>Size := 0\<rparr>) ''node1'')
        \<noteq> plainDigest (hashedText sortedStore sdb ''node1'')
   \<and> fst (ID plainDigest sortedStore (sdb\<lparr>Size := 0\<rparr>) ''node1'')
        \<noteq> fst (ID plainDigest sortedStore sdb ''node1'')"
proof -
  have p: "mset (unsortedStore (Holders sdb)) = mset (sortedStore (Holders sdb))
     \<and> mset (unsortedStore (MountPoints sdb)) = mset (sortedStore (MountPoints sdb))"
    by (simp add: unsortedStore_def sortedStore_def sdb_def)
  have z: "0 \<noteq> Size sdb"
    by (simp add: sdb_def)
  have a: "Holders sdb \<noteq> MountPoints sdb"
    by (simp add: sdb_def)
  have ph: "plainNames (CHR '','') [''dm-2''] \<and> plainNames (CHR '','') (sortedStore (Holders sdb))"
    by (simp add: plainNames_def sortedStore_def sdb_def)
  have mh: "mset [''dm-2''] \<noteq> mset (sortedStore (Holders sdb))"
    by (simp add: sortedStore_def sdb_def)
  have pm: "plainNames (CHR '','') [''/mnt/b'', ''/mnt/c'']
      \<and> plainNames (CHR '','') (sortedStore (MountPoints sdb))"
    by (simp add: plainNames_def sortedStore_def sdb_def)
  have mm: "mset [''/mnt/b'', ''/mnt/c''] \<noteq> mset (sortedStore (MountPoints sdb))"
    by (simp add: sortedStore_def sdb_def)
  have pu: "plainPairs [(''E:ID_FS_TYPE'', ''xfs'')] \<and> plainPairs (udevData sdb)"
    by (simp add: plainPairs_def sdb_def)
  have mu: "mset [(''E:ID_FS_TYPE'', ''xfs'')] \<noteq> mset (udevData sdb)"
    by (simp add: sdb_def)
  have mj: "MajorMinor (sdb\<lparr>Size := 0\<rparr>) = MajorMinor sdb"
    by simp
  note t = fingerprint_permutation_and_change
    [where st' = unsortedStore and st = sortedStore and d = sdb and dg = plainDigest
       and n = "''node1''" and s = 0 and hs = "[''dm-2'']" and ms = "[''/mnt/b'', ''/mnt/c'']"
       and u = "[(''E:ID_FS_TYPE'', ''xfs'')]"]
  note l = fingerprint_permutation_and_change
    [where st' = sortedStore and st = sortedStore and d = sdb and d' = "sdb\<lparr>Size := 0\<rparr>"
       and dg = plainDigest and n = "''node1''" and n' = "''node1''"]
  from t z have sz: "hashedText sortedStore (sdb\<lparr>Size := 0\<rparr>) ''node1''
      \<noteq> hashedText sortedStore sdb ''node1''"
    by blast
  then have dgne: "plainDigest (hashedText sortedStore (sdb\<lparr>Size := 0\<rparr>) ''node1'')
      \<noteq> plainDigest (hashedText sortedStore sdb ''node1'')"
    by (simp add: plainDigest_def)
  from l mj dgne have fp: "fst (ID plainDigest sortedStore (sdb\<lparr>Size := 0\<rparr>) ''node1'')
      \<noteq> fst (ID plainDigest sortedStore sdb ''node1'')"
    by blast
  from t p z a ph mh pm mm pu mu mj sz dgne fp show ?thesis
    by blast
qed

section \<open>Results about the initialization handler\<close>

text \<open>
  Whatever the compensating unmount returns, the result of \<open>initDevice\<close> is the same:
  the error of the unmount never reaches the caller.
\<close>

lemma initDevice_result_ignores_unmount:
  "snd (initDevice e (h\<lparr>unmount := u\<rparr>) fsuuid device force rl)
     = snd (initDevice e h fsuuid device force rl)"
  by (simp add: initDevice_def afterMount_def deferredUnmount_def newDrive_def Let_def
      split: sum.splits prod.splits option.splits)

text \<open>
  When the mount has succeeded and \<open>initDevice\<close> returns an error, its last call is
  the unmount of the device.
\<close>

lemma initDevice_unmounts_after_mount:
  assumes "getMounts h = Inr (devMap, majorMinorMap)"
    and "currentMountPoints devMap majorMinorMap device = []"
    and "makeFS h (AddDevPrefix e (Name device)) fsuuid force rl
           = Inr (fsuuid', label, totalCapacity, freeCapacity)"
    and "mount h (AddDevPrefix e (Name device)) fsuuid = None"
    and "snd (initDevice e h fsuuid device force rl) \<noteq> None"
  shows "last (fst (initDevice e h fsuuid device force rl)) = Unmount fsuuid"
  using assms
  by (auto simp: initDevice_def afterMount_def deferredUnmount_def Let_def
      split: option.splits)

text \<open>
  C3. The claim says that after a failure at the register-metadata stage or later the
  device is unmounted, and that an error of that unmount is appended to the error the
  caller gets. The unmount is made: it is the last call below. The deferred function
  also builds the combined error, but it assigns it to the local variable \<^verbatim>\<open>err\<close>,
  and the result of \<^verbatim>\<open>initDevice\<close> is unnamed, so the caller gets the error of the
  failed stage alone. When the symlink fails with "symlink failed" and the unmount with
  "unmount failed", the deferred function computes "symlink failed; unmount failed" and
  \<open>initDevice\<close> returns "symlink failed".
\<close>

theorem initDevice_drops_unmount_error:
  "initDevice okEnv symlinkAndUnmountFail ''u1'' sdb False False =
     ([GetMounts, MakeFS ''/dev/sdb'' ''u1'' False False, Mount ''/dev/sdb'' ''u1'',
       Symlink ''u1'', Unmount ''u1''],
      Some ''symlink failed'')
   \<and> deferredUnmount symlinkAndUnmountFail ''u1'' (Some ''symlink failed'') =
     ([Unmount ''u1''], Some ''symlink failed; unmount failed'')
   \<and> snd (initDevice okEnv symlinkAndUnmountFail ''u1'' sdb False False)
        \<noteq> Some ''symlink failed; unmount failed''"
  by (simp add: initDevice_def afterMount_def deferredUnmount_def currentMountPoints_def
      symlinkAndUnmountFail_def okHandler_def okEnv_def sdb_def Let_def)

text \<open>
  C4, as stated. The claim says that a failure to create the Drive record is surfaced
  without a compensating unmount. The creation assigns its error to \<^verbatim>\<open>err\<close>, so the
  deferred function finds it set and unmounts: with a formatted, mounted and labeled
  device and a failing creation, the last call of the pipeline is the unmount.
\<close>

theorem create_failure_unmounts_example:
  "initDevice createFails okHandler ''u1'' sdb False False =
     ([GetMounts, MakeFS ''/dev/sdb'' ''u1'' False False, Mount ''/dev/sdb'' ''u1'',
       Symlink ''u1'', MakeMetaDir ''u1'', WriteFile ''u1'' (metaData ''u1''),
       CreateDrive (newDrive okHandler ''u1'' sdb 1073741824 1000000000), Unmount ''u1''],
      Some ''unable to create Drive CRD; already exists'')
   \<and> Unmount ''u1'' \<in> set (fst (initDevice createFails okHandler ''u1'' sdb False False))"
  by (simp add: initDevice_def afterMount_def deferredUnmount_def currentMountPoints_def
      createFails_def okHandler_def okEnv_def sdb_def Let_def)

text \<open>
  C4, amended. In the single-device pipeline, when creating the Drive record fails after
  the device has been successfully formatted, mounted and labeled, the failure is
  surfaced, wrapped as "unable to create Drive CRD; ...", and the compensating unmount
  is performed after the failed creation.
\<close>

theorem create_failure_unmounts:
  assumes "getMounts h = Inr (devMap, majorMinorMap)"
    and "currentMountPoints devMap majorMinorMap device = []"
    and "makeFS h (AddDevPrefix e (Name device)) fsuuid force rl = Inr (fsuuid', label, totalCapacity, freeCapacity)"
    and "mount h (AddDevPrefix e (Name device)) fsuuid = None"
    and "symlink h fsuuid = None"
    and "makeMetaDir h fsuuid = None"
    and "writeFile h fsuuid (metaData fsuuid) = None"
    and "DriveCreate e (newDrive h fsuuid device totalCapacity freeCapacity) = Some err"
  shows "initDevice e h fsuuid device force rl =
     ([GetMounts, MakeFS (AddDevPrefix e (Name device)) fsuuid force rl,
       Mount (AddDevPrefix e (Name device)) fsuuid,
       Symlink fsuuid, MakeMetaDir fsuuid, WriteFile fsuuid (metaData fsuuid),
       CreateDrive (newDrive h fsuuid device totalCapacity freeCapacity), Unmount fsuuid],
      Some (''unable to create Drive CRD; '' @ err))"
  using assms
  by (simp add: initDevice_def afterMount_def deferredUnmount_def Let_def split: option.splits)

theorem create_failure_unmounts_witness:
  "getMounts okHandler = Inr (Map.empty, Map.empty)
   \<and> currentMountPoints Map.empty Map.empty sdb = []
   \<and> mount okHandler (AddDevPrefix createFails (Name sdb)) ''u2'' = None
   \<and> symlink okHandler ''u2'' = None
   \<and> makeMetaDir okHandler ''u2'' = None
   \<and> writeFile okHandler ''u2'' (metaData ''u2'') = None
   \<and> DriveCreate createFails (newDrive okHandler ''u2'' sdb 1073741824 1000000000)
        = Some ''already exists''
   \<and> snd (initDevice createFails okHandler ''u2'' sdb True False)
        = Some ''unable to create Drive CRD; already exists''
   \<and> last (fst (initDevice createFails okHandler ''u2'' sdb True False)) = Unmount ''u2''"
proof -
  have a: "getMounts okHandler = Inr (Map.empty, Map.empty)"
    by (simp add: okHandler_def)
  have b: "currentMountPoints Map.empty Map.empty sdb = []"
    by (simp add: currentMountPoints_def)
  have c: "makeFS okHandler (AddDevPrefix createFails (Name sdb)) ''u2'' True False
             = Inr (''u2'', ''DIRECTPV'', 1073741824, 1000000000)"
    by (simp add: okHandler_def)
  have d: "mount okHandler (AddDevPrefix createFails (Name sdb)) ''u2'' = None"
    by (simp add: okHandler_def)
  have f: "symlink okHandler ''u2'' = None"
    by (simp add: okHandler_def)
  have g: "makeMetaDir okHandler ''u2'' = None"
    by (simp add: okHandler_def)
  have i: "writeFile okHandler ''u2'' (metaData ''u2'') = None"
    by (simp add: okHandler_def)
  have j: "DriveCreate createFails (newDrive okHandler ''u2'' sdb 1073741824 1000000000)
             = Some ''already exists''"
    by (simp add: createFails_def okEnv_def)
  note t = create_failure_unmounts [OF a b c d f g i j]
  from t have "snd (initDevice createFails okHandler ''u2'' sdb True False)
        = Some ''unable to create Drive CRD; already exists''
     \<and> last (fst (initDevice createFails okHandler ''u2'' sdb True False)) = Unmount ''u2''"
    by simp
  with a b d f g i j show ?thesis
    by blast
qed

lemma sameSorted_refl: "sameSorted st st"
  by (simp add: sameSorted_def)

lemma sameSorted_ID: "sameSorted st0 st \<Longrightarrow> sameSorted st0 (snd (ID dg st d n))"
  by (simp add: sameSorted_def ID_def sortStrings_def Let_def sort_idem)

lemma sameSorted_fingerprint:
  "sameSorted st0 st \<Longrightarrow> fst (ID dg st0 d n) = fst (ID dg st d n)"
  by (simp add: sameSorted_def ID_fingerprint)

lemma initSlot_cases:
  "initSlot e h probed st i req =
     (case probed (initMajorMinor req) of
        None \<Rightarrow> (\<lparr>resName = initName req, resError = ''device not found''\<rparr>, [], st)
      | Some device \<Rightarrow>
          if fst (ID (digest e) st device (nodeID h)) \<noteq> initID req then
            (\<lparr>resName = initName req, resError = ''device state changed''\<rparr>, [],
             snd (ID (digest e) st device (nodeID h)))
          else
            (\<lparr>resName = initName req,
              resError =
                (case snd (initDevice e h (newUUID e i) device (initForce req) (reflink h)) of
                   None \<Rightarrow> [] | Some msg \<Rightarrow> msg)\<rparr>,
             fst (initDevice e h (newUUID e i) device (initForce req) (reflink h)),
             snd (ID (digest e) st device (nodeID h))))"
  by (simp add: initSlot_def case_prod_beta split: option.splits)

lemma initSlot_store:
  "sameSorted st0 st \<Longrightarrow> sameSorted st0 (snd (snd (initSlot e h probed st i req)))"
  by (simp add: initSlot_cases sameSorted_ID split: option.splits)

lemma initSlot_sameSorted:
  assumes "sameSorted st0 st"
  shows "fst (initSlot e h probed st i req) = fst (initSlot e h probed st0 i req)"
    and "fst (snd (initSlot e h probed st i req)) = fst (snd (initSlot e h probed st0 i req))"
  using sameSorted_fingerprint [OF assms]
  by (simp_all add: initSlot_cases split: option.splits)

lemma initLoop_Cons:
  "initLoop e h probed st k (req # reqs) =
     (fst (initSlot e h probed st k req)
        # fst (initLoop e h probed (snd (snd (initSlot e h probed st k req))) (Suc k) reqs),
      fst (snd (initSlot e h probed st k req))
        # fst (snd (initLoop e h probed (snd (snd (initSlot e h probed st k req))) (Suc k) reqs)),
      snd (snd (initLoop e h probed (snd (snd (initSlot e h probed st k req))) (Suc k) reqs)))"
  by (simp add: case_prod_beta)

lemma initLoop_slots:
  assumes "sameSorted st0 st"
  shows "length (fst (initLoop e h probed st k reqs)) = length reqs
     \<and> length (fst (snd (initLoop e h probed st k reqs))) = length reqs
     \<and> (\<forall>i<length reqs.
           fst (initLoop e h probed st k reqs) ! i = fst (initSlot e h probed st0 (k + i) (reqs ! i))
         \<and> fst (snd (initLoop e h probed st k reqs)) ! i
              = fst (snd (initSlot e h probed st0 (k + i) (reqs ! i))))"
  using assms
proof (induction reqs arbitrary: st k)
  case Nil
  then show ?case by simp
next
  case (Cons req reqs)
  let ?st1 = "snd (snd (initSlot e h probed st k req))"
  from initSlot_store [OF Cons.prems] have eq: "sameSorted st0 ?st1" .
  note ih = Cons.IH [OF eq, of "Suc k"]
  note here = initSlot_sameSorted [OF Cons.prems, of e h probed k req]
  show ?case
  proof (intro conjI allI impI)
    show "length (fst (initLoop e h probed st k (req # reqs))) = length (req # reqs)"
      using ih by (simp add: initLoop_Cons del: initLoop.simps)
    show "length (fst (snd (initLoop e h probed st k (req # reqs)))) = length (req # reqs)"
      using ih by (simp add: initLoop_Cons del: initLoop.simps)
  next
    fix i assume "i < length (req # reqs)"
    then show "fst (initLoop e h probed st k (req # reqs)) ! i
        = fst (initSlot e h probed st0 (k + i) ((req # reqs) ! i))"
      using ih here by (cases i) (simp_all add: initLoop_Cons del: initLoop.simps)
  next
    fix i assume "i < length (req # reqs)"
    then show "fst (snd (initLoop e h probed st k (req # reqs))) ! i
        = fst (snd (initSlot e h probed st0 (k + i) ((req # reqs) ! i)))"
      using ih here by (cases i) (simp_all add: initLoop_Cons del: initLoop.simps)
  qed
qed

lemma foldl_probed_None:
  "foldl (\<lambda>m device. m(MajorMinor device \<mapsto> device)) m0 devices mm = None
     \<longleftrightarrow> m0 mm = None \<and> mm \<notin> MajorMinor ` set devices"
  by (induction devices arbitrary: m0) auto

lemma probedDevices_None_iff:
  "probedDevices devices mm = None \<longleftrightarrow> mm \<notin> MajorMinor ` set devices"
  by (simp add: probedDevices_def foldl_probed_None)

lemma foldl_probed_Some:
  "foldl (\<lambda>m device. m(MajorMinor device \<mapsto> device)) m0 devices mm = Some d
     \<Longrightarrow> m0 mm = Some d \<or> (d \<in> set devices \<and> MajorMinor d = mm)"
proof (induction devices arbitrary: m0)
  case Nil
  then show ?case by simp
next
  case (Cons a devices)
  from Cons.prems
  have "foldl (\<lambda>m device. m(MajorMinor device \<mapsto> device)) (m0(MajorMinor a \<mapsto> a)) devices mm
          = Some d"
    by (simp only: foldl_Cons)
  from Cons.IH [OF this]
  have "(m0(MajorMinor a \<mapsto> a)) mm = Some d \<or> (d \<in> set devices \<and> MajorMinor d = mm)" .
  then show ?case
    by (auto split: if_splits)
qed

lemma probedDevices_Some:
  "probedDevices devices mm = Some d \<Longrightarrow> d \<in> set devices \<and> MajorMinor d = mm"
  using foldl_probed_Some [of Map.empty devices mm d]
  by (simp add: probedDevices_def)

lemma initDevices_probed:
  assumes "getDevices h (map initMajorMinor reqs) = Inr devices"
  shows "initDevices e h st reqs =
     (Inr (fst (initLoop e h (probedDevices devices) st 0 reqs)),
      [GetDevices (map initMajorMinor reqs)],
      fst (snd (initLoop e h (probedDevices devices) st 0 reqs)),
      snd (snd (initLoop e h (probedDevices devices) st 0 reqs)))"
  using assms by (simp add: initDevices_def case_prod_beta)

text \<open>
  C7. In batch initialization, when the one-time re-probe succeeds, every requested
  device has its own result slot, named after it, and: if its major:minor is absent from
  the re-probe, the slot records "device not found" and no call is made for it; if the
  fingerprint of the re-probed device differs from the requested fingerprint, the slot
  records "device state changed" and no call is made for it, so neither a format nor a
  mount is attempted; otherwise the single-device pipeline is run for it, and the slot
  records its error, if any. The re-probed device of a major:minor that is present is
  one of the probed devices with that major:minor.
\<close>

theorem initDevices_slot_outcomes:
  fixes e h st reqs
  defines "out \<equiv> initDevices e h st reqs"
  defines "results \<equiv> resultsOf (fst out)"
    and "callss \<equiv> fst (snd (snd out))"
  assumes probe: "getDevices h (map initMajorMinor reqs) = Inr devices"
    and i: "i < length reqs"
  shows "fst out = Inr results \<and> length results = length reqs \<and> length callss = length reqs
    \<and> resName (results ! i) = initName (reqs ! i)
    \<and> (initMajorMinor (reqs ! i) \<notin> MajorMinor ` set devices
         \<longrightarrow> resError (results ! i) = ''device not found'' \<and> callss ! i = [])
    \<and> (initMajorMinor (reqs ! i) \<in> MajorMinor ` set devices
         \<longrightarrow> (\<exists>device\<in>set devices. MajorMinor device = initMajorMinor (reqs ! i)
                \<and> probedDevices devices (initMajorMinor (reqs ! i)) = Some device))
    \<and> (\<forall>device. probedDevices devices (initMajorMinor (reqs ! i)) = Some device \<longrightarrow>
          (fst (ID (digest e) st device (nodeID h)) \<noteq> initID (reqs ! i)
             \<longrightarrow> resError (results ! i) = ''device state changed'' \<and> callss ! i = [])
        \<and> (fst (ID (digest e) st device (nodeID h)) = initID (reqs ! i)
             \<longrightarrow> callss ! i
                   = fst (initDevice e h (newUUID e i) device (initForce (reqs ! i)) (reflink h))
               \<and> resError (results ! i)
                   = (case snd (initDevice e h (newUUID e i) device (initForce (reqs ! i))
                                  (reflink h)) of
                        None \<Rightarrow> [] | Some msg \<Rightarrow> msg)))"
proof -
  let ?probed = "probedDevices devices"
  let ?loop = "initLoop e h ?probed st 0 reqs"
  let ?req = "reqs ! i"
  have out: "out = (Inr (fst ?loop), [GetDevices (map initMajorMinor reqs)],
      fst (snd ?loop), snd (snd ?loop))"
    unfolding out_def by (rule initDevices_probed [OF probe])
  then have res: "results = fst ?loop" and calls: "callss = fst (snd ?loop)"
    by (simp_all add: results_def callss_def resultsOf_def)
  note slots = initLoop_slots [OF sameSorted_refl, of e h ?probed st 0 reqs]
  from slots i have r: "results ! i = fst (initSlot e h ?probed st i ?req)"
    and c: "callss ! i = fst (snd (initSlot e h ?probed st i ?req))"
    by (simp_all add: res calls)
  from slots have len: "length results = length reqs \<and> length callss = length reqs"
    by (simp add: res calls)
  have name: "resName (results ! i) = initName ?req"
    by (simp add: r initSlot_cases split: option.splits)
  have absent: "initMajorMinor ?req \<notin> MajorMinor ` set devices
         \<longrightarrow> resError (results ! i) = ''device not found'' \<and> callss ! i = []"
    by (simp add: r c initSlot_cases probedDevices_None_iff [symmetric])
  have present: "initMajorMinor ?req \<in> MajorMinor ` set devices
         \<longrightarrow> (\<exists>device\<in>set devices. MajorMinor device = initMajorMinor ?req
                \<and> ?probed (initMajorMinor ?req) = Some device)"
    using probedDevices_None_iff [of devices "initMajorMinor ?req"]
      probedDevices_Some [of devices "initMajorMinor ?req"]
    by (cases "?probed (initMajorMinor ?req)") auto
  have found: "\<forall>device. ?probed (initMajorMinor ?req) = Some device \<longrightarrow>
          (fst (ID (digest e) st device (nodeID h)) \<noteq> initID ?req
             \<longrightarrow> resError (results ! i) = ''device state changed'' \<and> callss ! i = [])
        \<and> (fst (ID (digest e) st device (nodeID h)) = initID ?req
             \<longrightarrow> callss ! i
                   = fst (initDevice e h (newUUID e i) device (initForce ?req) (reflink h))
               \<and> resError (results ! i)
                   = (case snd (initDevice e h (newUUID e i) device (initForce ?req)
                                  (reflink h)) of
                        None \<Rightarrow> [] | Some msg \<Rightarrow> msg))"
    by (simp add: r c initSlot_cases)
  from out res len name absent present found show ?thesis
    by simp
qed

text \<open>
  C8. For every event on an InitRequest whose response map already has an entry for the
  handler's own node, \<open>Handle\<close> returns success and makes no call at all: no probe, no
  pipeline, and neither a read nor an update of the request; the store is untouched.
\<close>

theorem Handle_already_processed:
  assumes "Response initRequest = Some response"
    and "response (nodeID h) = Some result"
  shows "Handle e h st event initRequest = ([], Ok (), st)"
  using assms by (simp add: Handle_def)

theorem initDevices_slot_outcomes_witness:
  "getDevices okHandler (map initMajorMinor batch) = Inr [sdb]
   \<and> initMajorMinor (batch ! 0) \<notin> MajorMinor ` set [sdb]
   \<and> resError (resultsOf (fst (initDevices okEnv okHandler unsortedStore batch)) ! 0)
        = ''device not found''
   \<and> fst (snd (snd (initDevices okEnv okHandler unsortedStore batch))) ! 0 = []
   \<and> probedDevices [sdb] (initMajorMinor (batch ! 1)) = Some sdb
   \<and> fst (ID (digest okEnv) unsortedStore sdb (nodeID okHandler)) \<noteq> initID (batch ! 1)
   \<and> resError (resultsOf (fst (initDevices okEnv okHandler unsortedStore batch)) ! 1)
        = ''device state changed''
   \<and> fst (snd (snd (initDevices okEnv okHandler unsortedStore batch))) ! 1 = []
   \<and> probedDevices [sdb] (initMajorMinor (batch ! 2)) = Some sdb
   \<and> fst (ID (digest okEnv) unsortedStore sdb (nodeID okHandler)) = initID (batch ! 2)
   \<and> fst (snd (snd (initDevices okEnv okHandler unsortedStore batch))) ! 2
        = fst (initDevice okEnv okHandler (newUUID okEnv 2) sdb True False)
   \<and> resError (resultsOf (fst (initDevices okEnv okHandler unsortedStore batch)) ! 2) = []"
proof -
  have probe: "getDevices okHandler (map initMajorMinor batch) = Inr [sdb]"
    by (simp add: okHandler_def)
  have l0: "0 < length batch" and l1: "1 < length batch" and l2: "2 < length batch"
    by (simp_all add: batch_def)
  have a: "initMajorMinor (batch ! 0) \<notin> MajorMinor ` set [sdb]"
    by (simp add: batch_def absentRequest_def sdb_def)
  have p1: "probedDevices [sdb] (initMajorMinor (batch ! 1)) = Some sdb"
    by (simp add: probedDevices_def batch_def changedRequest_def sdb_def)
  have p2: "probedDevices [sdb] (initMajorMinor (batch ! 2)) = Some sdb"
    by (simp add: probedDevices_def batch_def matchingRequest_def sdb_def)
  have f1: "fst (ID (digest okEnv) unsortedStore sdb (nodeID okHandler)) \<noteq> initID (batch ! 1)"
    by (simp add: ID_fingerprint batch_def changedRequest_def sdb_def okEnv_def plainDigest_def
        serialized_def)
  have "fst (ID plainDigest unsortedStore sdb ''node1'') = fst (ID plainDigest sortedStore sdb ''node1'')"
    by (rule ID_permutation) (simp add: unsortedStore_def sortedStore_def sdb_def)
  then have f2: "fst (ID (digest okEnv) unsortedStore sdb (nodeID okHandler)) = initID (batch ! 2)"
    by (simp add: batch_def matchingRequest_def okEnv_def okHandler_def)
  have force: "initForce (batch ! 2) = True" and rl: "reflink okHandler = False"
    by (simp_all add: batch_def matchingRequest_def okHandler_def)
  have ok: "snd (initDevice okEnv okHandler (newUUID okEnv 2) sdb True False) = None"
    by (simp add: initDevice_def afterMount_def deferredUnmount_def currentMountPoints_def
        okHandler_def okEnv_def Let_def)
  note t0 = initDevices_slot_outcomes [OF probe l0, of okEnv unsortedStore]
  note t1 = initDevices_slot_outcomes [OF probe l1, of okEnv unsortedStore]
  note t2 = initDevices_slot_outcomes [OF probe l2, of okEnv unsortedStore]
  from t0 a
  have r0: "resError (resultsOf (fst (initDevices okEnv okHandler unsortedStore batch)) ! 0)
        = ''device not found''
      \<and> fst (snd (snd (initDevices okEnv okHandler unsortedStore batch))) ! 0 = []"
    by blast
  from t1 p1 f1
  have r1: "resError (resultsOf (fst (initDevices okEnv okHandler unsortedStore batch)) ! 1)
        = ''device state changed''
      \<and> fst (snd (snd (initDevices okEnv okHandler unsortedStore batch))) ! 1 = []"
    by blast
  from t2 p2 f2
  have "fst (snd (snd (initDevices okEnv okHandler unsortedStore batch))) ! 2
        = fst (initDevice okEnv okHandler (newUUID okEnv 2) sdb (initForce (batch ! 2))
                 (reflink okHandler))
      \<and> resError (resultsOf (fst (initDevices okEnv okHandler unsortedStore batch)) ! 2)
        = (case snd (initDevice okEnv okHandler (newUUID okEnv 2) sdb (initForce (batch ! 2))
                       (reflink okHandler)) of
             None \<Rightarrow> [] | Some msg \<Rightarrow> msg)"
    by blast
  then have r2: "fst (snd (snd (initDevices okEnv okHandler unsortedStore batch))) ! 2
        = fst (initDevice okEnv okHandler (newUUID okEnv 2) sdb True False)
      \<and> resError (resultsOf (fst (initDevices okEnv okHandler unsortedStore batch)) ! 2) = []"
    by (simp add: force rl ok)
  from probe a r0 p1 f1 r1 p2 f2 r2 show ?thesis
    by blast
qed

theorem Handle_already_processed_witness:
  "Response processedRequest = Some [''node1'' \<mapsto> doneResult]
   \<and> [''node1'' \<mapsto> doneResult] (nodeID okHandler) = Some doneResult
   \<and> Handle okEnv okHandler unsortedStore AddEvent processedRequest = ([], Ok (), unsortedStore)
   \<and> Handle okEnv okHandler unsortedStore UpdateEvent processedRequest = ([], Ok (), unsortedStore)
   \<and> Handle okEnv okHandler unsortedStore SyncEvent processedRequest = ([], Ok (), unsortedStore)"
proof -
  have a: "Response processedRequest = Some [''node1'' \<mapsto> doneResult]"
    by (simp add: processedRequest_def)
  have b: "[''node1'' \<mapsto> doneResult] (nodeID okHandler) = Some doneResult"
    by (simp add: okHandler_def)
  note t = Handle_already_processed [OF a b, of okEnv unsortedStore]
  from a b t [of AddEvent] t [of UpdateEvent] t [of SyncEvent] show ?thesis
    by blast
qed

section \<open>Results about the finalizer repair\<close>







end
